theory Spec2Isabelle
  imports Main
begin

section \<open>Go standard-library string functions used by the provider\<close>

text \<open>
  Go strings are byte sequences; \<open>string\<close> (a list of 8-bit characters) models them
  byte for byte. Each function below follows the documented behaviour of the function of
  package \<open>strings\<close> or \<open>fmt\<close> with the same name.
\<close>

definition HasSuffix :: "string \<Rightarrow> string \<Rightarrow> bool" where
  "HasSuffix s suf =
     (length suf \<le> length s \<and> drop (length s - length suf) s = suf)"

definition TrimSuffix :: "string \<Rightarrow> string \<Rightarrow> string" where
  "TrimSuffix s suf =
     (if HasSuffix s suf then take (length s - length suf) s else s)"

definition CutSuffix :: "string \<Rightarrow> string \<Rightarrow> string \<times> bool" where
  "CutSuffix s suf =
     (if HasSuffix s suf then (take (length s - length suf) s, True) else (s, False))"

text \<open>\<open>strings.Trim(s, "\"")\<close>: every leading and trailing double quote is removed.\<close>

definition dquote :: char where
  "dquote = CHR 0x22"

definition TrimQuotes :: "string \<Rightarrow> string" where
  "TrimQuotes s =
     rev (dropWhile (\<lambda>c. c = dquote) (rev (dropWhile (\<lambda>c. c = dquote) s)))"

text \<open>
  \<open>strings.Fields\<close> splits around runs of white space as defined by \<open>unicode.IsSpace\<close>.
  \<open>space_width s\<close> is the number of bytes of the white-space rune that \<open>s\<close> starts with,
  and 0 when \<open>s\<close> does not start with one: the six ASCII spaces, and the UTF-8 encodings of
  U+0085, U+00A0, U+1680, U+2000 to U+200A, U+2028, U+2029, U+202F, U+205F and U+3000.
  A lead byte of a multi-byte encoding never occurs inside another rune, so scanning the
  bytes for these encodings finds the same separators as Go's rune-by-rune decoding.
\<close>

definition space_width :: "string \<Rightarrow> nat" where
  "space_width s =
     (case map of_char (take 3 s) :: nat list of
        [] \<Rightarrow> 0
      | b0 # r1 \<Rightarrow>
          if b0 = 9 \<or> b0 = 10 \<or> b0 = 11 \<or> b0 = 12 \<or> b0 = 13 \<or> b0 = 32 then 1
          else (case r1 of
                  [] \<Rightarrow> 0
                | b1 # r2 \<Rightarrow>
                    if b0 = 0xC2 \<and> (b1 = 0x85 \<or> b1 = 0xA0) then 2
                    else (case r2 of
                            [] \<Rightarrow> 0
                          | b2 # _ \<Rightarrow>
                              if b0 = 0xE1 \<and> b1 = 0x9A \<and> b2 = 0x80 then 3
                              else if b0 = 0xE2 \<and> b1 = 0x80 \<and>
                                      (0x80 \<le> b2 \<and> b2 \<le> 0x8A \<or> b2 = 0xA8 \<or> b2 = 0xA9 \<or> b2 = 0xAF)
                                   then 3
                              else if b0 = 0xE2 \<and> b1 = 0x81 \<and> b2 = 0x9F then 3
                              else if b0 = 0xE3 \<and> b1 = 0x80 \<and> b2 = 0x80 then 3
                              else 0)))"

definition flush :: "string \<Rightarrow> string list" where
  "flush cur = (if cur = [] then [] else [cur])"

fun fields_from :: "string \<Rightarrow> string \<Rightarrow> string list" where
  "fields_from cur [] = flush cur"
| "fields_from cur (c # cs) =
     (if space_width (c # cs) = 0 then fields_from (cur @ [c]) cs
      else flush cur @ fields_from [] (drop (space_width (c # cs) - 1) cs))"

definition Fields :: "string \<Rightarrow> string list" where
  "Fields s = fields_from [] s"

fun Join :: "string list \<Rightarrow> string \<Rightarrow> string" where
  "Join [] sep = []"
| "Join [x] sep = x"
| "Join (x # y # ys) sep = x @ sep @ Join (y # ys) sep"

text \<open>
  \<open>fmt.Sscanf(tok, "%d", &v)\<close> on a token without white space: an optional sign, then the
  longest run of decimal digits, which must not be empty (the verb \<open>%d\<close> scans the digits
  \<open>0\<close> to \<open>9\<close> only; an underscore ends the run); sign and run are handed to
  \<open>strconv.ParseInt(_, 10, 64)\<close>, which rejects a value outside the 64-bit range (Go's
  \<open>int\<close> has 64 bits here). On any error the target keeps its old value; text after the
  run is ignored.
\<close>

definition digit_val :: "char \<Rightarrow> int" where
  "digit_val c = int (of_char c) - 48"

definition dec_value :: "string \<Rightarrow> int" where
  "dec_value ds = foldl (\<lambda>a c. 10 * a + digit_val c) 0 ds"

definition is_digit :: "char \<Rightarrow> bool" where
  "is_digit c = (c \<in> set ''0123456789'')"

definition Sscanf_d :: "string \<Rightarrow> int \<Rightarrow> int" where
  "Sscanf_d tok old =
     (let neg = (tok \<noteq> [] \<and> hd tok = CHR ''-'');
          rest = (if tok \<noteq> [] \<and> (hd tok = CHR ''+'' \<or> hd tok = CHR ''-'') then tl tok else tok);
          run = takeWhile is_digit rest;
          v = (if neg then - dec_value run else dec_value run)
      in if run = [] then old
         else if v < - (2 ^ 63) \<or> 2 ^ 63 \<le> v then old
         else v)"

text \<open>\<open>fmt.Sprintf("%d", n)\<close>: the decimal digits of \<open>n\<close>, after a minus sign when negative.\<close>

definition digit_char :: "nat \<Rightarrow> char" where
  "digit_char d = ''0123456789'' ! d"

fun nat_dec :: "nat \<Rightarrow> string" where
  "nat_dec n = (if n < 10 then [digit_char n] else nat_dec (n div 10) @ [digit_char (n mod 10)])"

declare nat_dec.simps [simp del]

definition Sprintf_d :: "int \<Rightarrow> string" where
  "Sprintf_d n = (if n < 0 then CHR ''-'' # nat_dec (nat (- n)) else nat_dec (nat n))"

section \<open>Data model\<close>

text \<open>
  \<open>libdns.RR\<close>, the canonical record as a tuple: name, type, data and time to live.
  \<open>rr_TTL\<close> is a \<open>time.Duration\<close>, a 64-bit count of nanoseconds.
\<close>

record RR =
  rr_Name :: string
  rr_Type :: string
  rr_Data :: string
  rr_TTL :: int

text \<open>
  Modelled from the spec: the declarations of the structs \<open>Record\<close> and \<open>Zone\<close> are not
  among the sources; the fields are those the code and its tests use (spec, section 3).
\<close>

record Record =
  ID :: int
  Name :: string
  Type :: string
  Content :: string
  TTL :: int
  Priority :: int

record Zone =
  zone_ID :: int
  zone_Name :: string

record Provider =
  APIToken :: string
  APIURL :: string

record Client =
  token :: string
  BaseURL :: string

text \<open>
  Go errors. \<open>External\<close> is an error value produced outside the provider (by \<open>net/url\<close>,
  by the HTTP exchange, by the libdns codec); \<open>Wrap msg e\<close> is
  \<open>fmt.Errorf(msg + ": %w", e)\<close> and \<open>WrapID msg n e\<close> is \<open>fmt.Errorf(msg + " %d: %w", n, e)\<close>.
\<close>

datatype error =
    External string
  | ZoneNotFound string
  | Wrap string error
  | WrapID string int error

text \<open>The calls of the client's methods, in the order the provider makes them.\<close>

datatype call =
    GET_zones
  | GET_records int string
  | POST_record int Record
  | PUT_record int int Record
  | DELETE_record int int

text \<open>
  What the provider consumes from outside, for a canonical record type \<open>'c\<close>:
  \<^item> \<open>url_Parse\<close>: \<open>net/url.Parse\<close>;
  \<^item> \<open>http_zones\<close>, \<open>http_records\<close>, \<open>http_record\<close>, \<open>http_delete\<close>: what the client's method
    returns after its HTTP exchange, as a function of all calls made so far, the current one
    last (the remote side may answer differently each time);
  \<^item> \<open>rr_Parse\<close> and \<open>rr_RR\<close>: the libdns codec, \<open>RR.Parse\<close> and \<open>Record.RR\<close>;
  \<^item> \<open>Seconds\<close>: \<open>int(d.Seconds())\<close> of a duration, computed by Go in floating point.
\<close>

record 'c env =
  url_Parse :: "string \<Rightarrow> error + string"
  http_zones :: "Client \<Rightarrow> call list \<Rightarrow> error + Zone list"
  http_records :: "Client \<Rightarrow> call list \<Rightarrow> error + Record list"
  http_record :: "Client \<Rightarrow> call list \<Rightarrow> error + Record"
  http_delete :: "Client \<Rightarrow> call list \<Rightarrow> error option"
  rr_Parse :: "RR \<Rightarrow> error + 'c"
  rr_RR :: "'c \<Rightarrow> RR"
  Seconds :: "int \<Rightarrow> int"

section \<open>Record translator\<close>

text \<open>
  \<open>libdnsToInternal\<close>: canonical record to provider record. \<open>apex_name\<close> is its name
  part (lines 49 to 65 of the source), \<open>split_priority\<close> its data and priority part (lines
  67 to 92); a new record has the id 0.
\<close>

definition apex_name :: "string \<Rightarrow> string \<Rightarrow> string" where
  "apex_name zone n =
     (let normalizedZone = TrimSuffix zone ''.'';
          normalizedName = TrimSuffix n ''.'';
          zoneSuffix = ''.'' @ normalizedZone;
          name = (case CutSuffix normalizedName zoneSuffix of
                    (after, found) \<Rightarrow> if found then after else n)
      in if name = [] \<or> name = ''@'' \<or> name = zone \<or> name = TrimSuffix zone ''.''
         then ''@'' else name)"

definition split_priority :: "string \<Rightarrow> string \<Rightarrow> string \<times> int" where
  "split_priority ty d =
     (let data = (if ty = ''TXT'' then TrimQuotes d else d);
          parts = Fields d
      in if ty = ''MX'' then
           (if length parts \<ge> 2 then (Join (tl parts) '' '', Sscanf_d (hd parts) 0)
            else (data, 0))
         else if ty = ''SRV'' then
           (if length parts \<ge> 4 then (Join (tl parts) '' '', Sscanf_d (hd parts) 0)
            else (data, 0))
         else (data, 0))"

definition libdnsToInternal :: "'c env \<Rightarrow> string \<Rightarrow> 'c \<Rightarrow> Record" where
  "libdnsToInternal E zone rec =
     (let rr = rr_RR E rec;
          name = apex_name zone (rr_Name rr);
          dp = split_priority (rr_Type rr) (rr_Data rr)
      in \<lparr>ID = 0, Name = name, Type = rr_Type rr, Content = fst dp,
          TTL = Seconds E (rr_TTL rr), Priority = snd dp\<rparr>)"

text \<open>
  \<open>internalToLibdns\<close>: provider record to canonical record. \<open>internalToLibdns_rr\<close> is the
  \<open>libdns.RR\<close> the function builds; the function returns what the codec makes of it.
  The multiplication of the duration wraps at 64 bits.
\<close>

definition wrap64 :: "int \<Rightarrow> int" where
  "wrap64 x = (x + 2 ^ 63) mod 2 ^ 64 - 2 ^ 63"

definition fqdn_name :: "string \<Rightarrow> string \<Rightarrow> string" where
  "fqdn_name zone name =
     (let normalizedZone = TrimSuffix zone ''.''
      in if name = [] \<or> name = ''@'' then
           (if \<not> HasSuffix zone ''.'' then zone @ ''.'' else zone)
         else if HasSuffix name (''.'' @ normalizedZone) \<or>
                 HasSuffix name (''.'' @ normalizedZone @ ''.'') then
           TrimSuffix name ''.'' @ ''.''
         else if name = normalizedZone \<or> name = normalizedZone @ ''.'' then
           normalizedZone @ ''.''
         else name @ ''.'' @ normalizedZone @ ''.'')"

definition internalToLibdns_rr :: "string \<Rightarrow> Record \<Rightarrow> RR" where
  "internalToLibdns_rr zone rec =
     (let data = (if Type rec = ''MX'' \<or> Type rec = ''SRV''
                  then Sprintf_d (Priority rec) @ '' '' @ Content rec
                  else if Type rec = ''TXT'' then TrimQuotes (Content rec)
                  else Content rec);
          name = (if Type rec = ''SRV'' \<and> (Name rec = [] \<or> Name rec = ''@'')
                  then ''_service._tcp'' else Name rec)
      in \<lparr>rr_Name = fqdn_name zone name, rr_Type = Type rec, rr_Data = data,
          rr_TTL = wrap64 (TTL rec * 1000000000)\<rparr>)"

definition internalToLibdns :: "'c env \<Rightarrow> string \<Rightarrow> Record \<Rightarrow> error + 'c" where
  "internalToLibdns E zone rec = rr_Parse E (internalToLibdns_rr zone rec)"

section \<open>Client\<close>

text \<open>
  Each method of the client is one entry of the call log; its result is what the HTTP
  exchange gives for the log so far.
\<close>

definition DefaultBaseURL :: string where
  "DefaultBaseURL = ''https://api.neodigit.net/v1''"

definition newClient :: "'c env \<Rightarrow> Provider \<Rightarrow> error + Client" where
  "newClient E p =
     (let baseURL = (if APIURL p = [] then DefaultBaseURL else APIURL p)
      in case url_Parse E baseURL of
           Inl e \<Rightarrow> Inl (Wrap ''invalid API URL'' e)
         | Inr u \<Rightarrow> Inr \<lparr>token = APIToken p, BaseURL = u\<rparr>)"

definition getZones :: "'c env \<Rightarrow> Client \<Rightarrow> call list \<Rightarrow> (error + Zone list) \<times> call list" where
  "getZones E c log = (let log' = log @ [GET_zones] in (http_zones E c log', log'))"

definition getRecords ::
  "'c env \<Rightarrow> Client \<Rightarrow> int \<Rightarrow> string \<Rightarrow> call list \<Rightarrow> (error + Record list) \<times> call list" where
  "getRecords E c zoneID recordType log =
     (let log' = log @ [GET_records zoneID recordType] in (http_records E c log', log'))"

definition createRecord ::
  "'c env \<Rightarrow> Client \<Rightarrow> int \<Rightarrow> Record \<Rightarrow> call list \<Rightarrow> (error + Record) \<times> call list" where
  "createRecord E c zoneID record log =
     (let log' = log @ [POST_record zoneID record] in (http_record E c log', log'))"

definition updateRecord ::
  "'c env \<Rightarrow> Client \<Rightarrow> int \<Rightarrow> int \<Rightarrow> Record \<Rightarrow> call list \<Rightarrow> (error + Record) \<times> call list" where
  "updateRecord E c zoneID recordID record log =
     (let log' = log @ [PUT_record zoneID recordID record] in (http_record E c log', log'))"

definition deleteRecord ::
  "'c env \<Rightarrow> Client \<Rightarrow> int \<Rightarrow> int \<Rightarrow> call list \<Rightarrow> error option \<times> call list" where
  "deleteRecord E c zoneID recordID log =
     (let log' = log @ [DELETE_record zoneID recordID] in (http_delete E c log', log'))"

section \<open>Zone resolver\<close>

fun find_zone :: "string \<Rightarrow> Zone list \<Rightarrow> int option" where
  "find_zone zoneName [] = None"
| "find_zone zoneName (z # zs) =
     (if TrimSuffix (zone_Name z) ''.'' = zoneName then Some (zone_ID z)
      else find_zone zoneName zs)"

definition getZoneID ::
  "'c env \<Rightarrow> Provider \<Rightarrow> string \<Rightarrow> call list \<Rightarrow> (error + int) \<times> call list" where
  "getZoneID E p zone log =
     (case newClient E p of
        Inl e \<Rightarrow> (Inl e, log)
      | Inr client \<Rightarrow>
          (case getZones E client log of
             (Inl e, log1) \<Rightarrow> (Inl e, log1)
           | (Inr zones, log1) \<Rightarrow>
               (case find_zone (TrimSuffix zone ''.'') zones of
                  Some i \<Rightarrow> (Inr i, log1)
                | None \<Rightarrow> (Inl (ZoneNotFound zone), log1))))"

section \<open>The four operations of the provider\<close>

subsection \<open>GetRecords\<close>

fun list_loop :: "'c env \<Rightarrow> string \<Rightarrow> Record list \<Rightarrow> 'c list \<Rightarrow> 'c list" where
  "list_loop E zone [] acc = acc"
| "list_loop E zone (record # rest) acc =
     (case internalToLibdns E zone record of
        Inl e \<Rightarrow> list_loop E zone rest acc
      | Inr libdnsRec \<Rightarrow> list_loop E zone rest (acc @ [libdnsRec]))"

definition GetRecords ::
  "'c env \<Rightarrow> Provider \<Rightarrow> string \<Rightarrow> call list \<Rightarrow> (error + 'c list) \<times> call list" where
  "GetRecords E p zone log =
     (case getZoneID E p zone log of
        (Inl e, log1) \<Rightarrow> (Inl e, log1)
      | (Inr zoneID, log1) \<Rightarrow>
          (case newClient E p of
             Inl e \<Rightarrow> (Inl e, log1)
           | Inr client \<Rightarrow>
               (case getRecords E client zoneID [] log1 of
                  (Inl e, log2) \<Rightarrow> (Inl e, log2)
                | (Inr records, log2) \<Rightarrow> (Inr (list_loop E zone records []), log2))))"

subsection \<open>AppendRecords\<close>

fun append_loop ::
  "'c env \<Rightarrow> Client \<Rightarrow> string \<Rightarrow> int \<Rightarrow> 'c list \<Rightarrow> 'c list \<Rightarrow> call list \<Rightarrow>
   (error + 'c list) \<times> call list" where
  "append_loop E client zone zoneID [] acc log = (Inr acc, log)"
| "append_loop E client zone zoneID (record # rest) acc log =
     (case createRecord E client zoneID (libdnsToInternal E zone record) log of
        (Inl e, log') \<Rightarrow> (Inl (Wrap ''failed to create record'' e), log')
      | (Inr createdRec, log') \<Rightarrow>
          (case internalToLibdns E zone createdRec of
             Inl e \<Rightarrow> (Inl (Wrap ''failed to convert created record'' e), log')
           | Inr libdnsRec \<Rightarrow>
               append_loop E client zone zoneID rest (acc @ [libdnsRec]) log'))"

definition AppendRecords ::
  "'c env \<Rightarrow> Provider \<Rightarrow> string \<Rightarrow> 'c list \<Rightarrow> call list \<Rightarrow> (error + 'c list) \<times> call list" where
  "AppendRecords E p zone records log =
     (case getZoneID E p zone log of
        (Inl e, log1) \<Rightarrow> (Inl e, log1)
      | (Inr zoneID, log1) \<Rightarrow>
          (case newClient E p of
             Inl e \<Rightarrow> (Inl e, log1)
           | Inr client \<Rightarrow> append_loop E client zone zoneID records [] log1))"

subsection \<open>SetRecords\<close>

type_synonym recordKey = "string \<times> string"

definition key_of :: "Record \<Rightarrow> recordKey" where
  "key_of r = (Name r, Type r)"

fun group_inputs ::
  "'c env \<Rightarrow> string \<Rightarrow> 'c list \<Rightarrow> (recordKey \<rightharpoonup> Record list) \<Rightarrow> (recordKey \<rightharpoonup> Record list)" where
  "group_inputs E zone [] inputByKey = inputByKey"
| "group_inputs E zone (record # rest) inputByKey =
     (let internalRec = libdnsToInternal E zone record;
          key = (Name internalRec, Type internalRec);
          bucket = (case inputByKey key of None \<Rightarrow> [] | Some rs \<Rightarrow> rs)
      in group_inputs E zone rest (inputByKey(key \<mapsto> bucket @ [internalRec])))"

definition existing_for :: "recordKey \<Rightarrow> Record list \<Rightarrow> Record list" where
  "existing_for key existingRecords =
     filter (\<lambda>existing. Name existing = fst key \<and> Type existing = snd key) existingRecords"

fun set_inputs ::
  "'c env \<Rightarrow> Client \<Rightarrow> string \<Rightarrow> int \<Rightarrow> Record list \<Rightarrow> nat \<Rightarrow> Record list \<Rightarrow> 'c list \<Rightarrow>
   call list \<Rightarrow> (error + 'c list) \<times> call list" where
  "set_inputs E client zone zoneID existingForKey i [] acc log = (Inr acc, log)"
| "set_inputs E client zone zoneID existingForKey i (internalRec # rest) acc log =
     (case (if i < length existingForKey then
              (case updateRecord E client zoneID (ID (existingForKey ! i)) internalRec log of
                 (Inl e, log') \<Rightarrow>
                   (Inl (WrapID ''failed to update record'' (ID (existingForKey ! i)) e), log')
               | (Inr resultRec, log') \<Rightarrow> (Inr resultRec, log'))
            else
              (case createRecord E client zoneID internalRec log of
                 (Inl e, log') \<Rightarrow> (Inl (Wrap ''failed to create record'' e), log')
               | (Inr resultRec, log') \<Rightarrow> (Inr resultRec, log'))) of
        (Inl e, log') \<Rightarrow> (Inl e, log')
      | (Inr resultRec, log') \<Rightarrow>
          (case internalToLibdns E zone resultRec of
             Inl e \<Rightarrow> (Inl (Wrap ''failed to convert record'' e), log')
           | Inr libdnsRec \<Rightarrow>
               set_inputs E client zone zoneID existingForKey (Suc i) rest
                 (acc @ [libdnsRec]) log'))"

function delete_extra ::
  "'c env \<Rightarrow> Client \<Rightarrow> int \<Rightarrow> Record list \<Rightarrow> nat \<Rightarrow> call list \<Rightarrow> error option \<times> call list" where
  "delete_extra E client zoneID existingForKey i log =
     (if i < length existingForKey then
        (case deleteRecord E client zoneID (ID (existingForKey ! i)) log of
           (Some e, log') \<Rightarrow>
             (Some (WrapID ''failed to delete extra record'' (ID (existingForKey ! i)) e), log')
         | (None, log') \<Rightarrow> delete_extra E client zoneID existingForKey (Suc i) log')
      else (None, log))"
  by pat_completeness auto
termination
  by (relation "measure (\<lambda>(E, client, zoneID, existingForKey, i, log). length existingForKey - i)")
    auto

declare delete_extra.simps [simp del]

fun set_keys ::
  "'c env \<Rightarrow> Client \<Rightarrow> string \<Rightarrow> int \<Rightarrow> Record list \<Rightarrow> (recordKey \<rightharpoonup> Record list) \<Rightarrow>
   recordKey list \<Rightarrow> 'c list \<Rightarrow> call list \<Rightarrow> (error + 'c list) \<times> call list" where
  "set_keys E client zone zoneID existingRecords inputByKey [] setRecords log =
     (Inr setRecords, log)"
| "set_keys E client zone zoneID existingRecords inputByKey (key # keys) setRecords log =
     (let inputRecs = (case inputByKey key of None \<Rightarrow> [] | Some rs \<Rightarrow> rs);
          existingForKey = existing_for key existingRecords
      in case set_inputs E client zone zoneID existingForKey 0 inputRecs setRecords log of
           (Inl e, log1) \<Rightarrow> (Inl e, log1)
         | (Inr setRecords1, log1) \<Rightarrow>
             (case delete_extra E client zoneID existingForKey (length inputRecs) log1 of
                (Some e, log2) \<Rightarrow> (Inl e, log2)
              | (None, log2) \<Rightarrow>
                  set_keys E client zone zoneID existingRecords inputByKey keys
                    setRecords1 log2))"

text \<open>
  Go leaves the order in which \<open>range\<close> visits the keys of a map unspecified: \<open>SetRecords\<close>
  takes it as the argument \<open>order\<close>, and \<open>range_order\<close> says that a list is such an order,
  every key of the map exactly once.
\<close>

definition range_order :: "('k \<rightharpoonup> 'v) \<Rightarrow> 'k list \<Rightarrow> bool" where
  "range_order m ks = (distinct ks \<and> set ks = dom m)"

definition SetRecords ::
  "'c env \<Rightarrow> Provider \<Rightarrow> string \<Rightarrow> 'c list \<Rightarrow> recordKey list \<Rightarrow> call list \<Rightarrow>
   (error + 'c list) \<times> call list" where
  "SetRecords E p zone records order log =
     (case getZoneID E p zone log of
        (Inl e, log1) \<Rightarrow> (Inl e, log1)
      | (Inr zoneID, log1) \<Rightarrow>
          (case newClient E p of
             Inl e \<Rightarrow> (Inl e, log1)
           | Inr client \<Rightarrow>
               (case getRecords E client zoneID [] log1 of
                  (Inl e, log2) \<Rightarrow> (Inl e, log2)
                | (Inr existingRecords, log2) \<Rightarrow>
                    set_keys E client zone zoneID existingRecords
                      (group_inputs E zone records Map.empty) order [] log2)))"

subsection \<open>DeleteRecords\<close>





section \<open>A test double of the environment\<close>

text \<open>
  The environment of the repository's tests: a server that lists fixed zones and records,
  answers a create with the record under a fresh id and an update with the record under the
  id of the request, rejects a record whose content is \<open>reject\<close>, and accepts every delete;
  a codec on \<open>RR\<close> itself that rejects the type \<open>BAD\<close>.
\<close>

definition test_env :: "Zone list \<Rightarrow> Record list \<Rightarrow> RR env" where
  "test_env zones records =
     \<lparr>url_Parse = Inr,
      http_zones = (\<lambda>c log. Inr zones),
      http_records = (\<lambda>c log. Inr records),
      http_record = (\<lambda>c log. case last log of
                        POST_record z r \<Rightarrow>
                          if Content r = ''reject'' then Inl (External ''400'')
                          else Inr (r\<lparr>ID := 100 + int (length log)\<rparr>)
                      | PUT_record z i r \<Rightarrow>
                          if Content r = ''reject'' then Inl (External ''400'')
                          else Inr (r\<lparr>ID := i\<rparr>)
                      | _ \<Rightarrow> Inl (External ''405'')),
      http_delete = (\<lambda>c log. None),
      rr_Parse = (\<lambda>rr. if rr_Type rr = ''BAD'' then Inl (External ''parse'') else Inr rr),
      rr_RR = id,
      Seconds = (\<lambda>d. d div 1000000000)\<rparr>"

definition test_provider :: Provider where
  "test_provider = \<lparr>APIToken = ''test-token'', APIURL = ''http://127.0.0.1''\<rparr>"

text \<open>The records of the translator's tests, and two with too few fields.\<close>

definition mx_example :: RR where
  "mx_example = \<lparr>rr_Name = ''@'', rr_Type = ''MX'', rr_Data = ''10 mail.example.com'',
     rr_TTL = 3600000000000\<rparr>"

definition srv_example :: RR where
  "srv_example = \<lparr>rr_Name = ''_sip._tcp'', rr_Type = ''SRV'',
     rr_Data = ''10 20 5060 sip.example.com'', rr_TTL = 3600000000000\<rparr>"

definition mx_short :: RR where
  "mx_short = \<lparr>rr_Name = ''@'', rr_Type = ''MX'', rr_Data = ''mail.example.com'',
     rr_TTL = 3600000000000\<rparr>"

definition srv_short :: RR where
  "srv_short = \<lparr>rr_Name = ''_sip._tcp'', rr_Type = ''SRV'', rr_Data = ''10 20 5060'',
     rr_TTL = 3600000000000\<rparr>"

text \<open>Zones and records of the test server.\<close>

definition test_zones :: "Zone list" where
  "test_zones = [\<lparr>zone_ID = 1, zone_Name = ''example.com''\<rparr>,
                 \<lparr>zone_ID = 2, zone_Name = ''example.org.''\<rparr>,
                 \<lparr>zone_ID = 3, zone_Name = ''example.com.''\<rparr>]"

definition test_records :: "Record list" where
  "test_records =
     [\<lparr>ID = 1, Name = ''www'', Type = ''A'', Content = ''192.0.2.1'', TTL = 3600, Priority = 0\<rparr>,
      \<lparr>ID = 2, Name = ''odd'', Type = ''BAD'', Content = ''x'', TTL = 3600, Priority = 0\<rparr>,
      \<lparr>ID = 3, Name = ''www'', Type = ''A'', Content = ''192.0.2.2'', TTL = 3600, Priority = 0\<rparr>,
      \<lparr>ID = 4, Name = ''mail'', Type = ''A'', Content = ''192.0.2.3'', TTL = 3600, Priority = 0\<rparr>]"

section \<open>The reconciliation plan of the specification\<close>

text \<open>
  Section 4.3 of the specification, step 4, for one key: with \<open>existing\<close> the current
  records of the key and \<open>desired\<close> its input bucket, an update for each index below both
  lengths, a create for each index from the number of existing records up to the number of
  desired ones, and a delete for each index from the number of desired records up to the
  number of existing ones.
\<close>

definition plan_for_key :: "int \<Rightarrow> Record list \<Rightarrow> Record list \<Rightarrow> call list" where
  "plan_for_key zoneID existing desired =
     map (\<lambda>i. PUT_record zoneID (ID (existing ! i)) (desired ! i))
       [0..<min (length desired) (length existing)] @
     map (\<lambda>i. POST_record zoneID (desired ! i)) [length existing..<length desired] @
     map (\<lambda>i. DELETE_record zoneID (ID (existing ! i))) [length desired..<length existing]"

definition desired_for :: "'c env \<Rightarrow> string \<Rightarrow> 'c list \<Rightarrow> recordKey \<Rightarrow> Record list" where
  "desired_for E zone records key =
     filter (\<lambda>r. key_of r = key) (map (libdnsToInternal E zone) records)"

definition set_plan ::
  "'c env \<Rightarrow> string \<Rightarrow> int \<Rightarrow> Record list \<Rightarrow> 'c list \<Rightarrow> recordKey list \<Rightarrow> call list" where
  "set_plan E zone zoneID existingRecords records order =
     concat (map (\<lambda>key. plan_for_key zoneID (existing_for key existingRecords)
                           (desired_for E zone records key)) order)"

text \<open>
  One step of \<open>SetRecords\<close>: the call \<open>x\<close> has just been written at the end of \<open>log\<close>. The
  step gives the wrapped error of a failed call or a failed translation of its result, and
  otherwise the canonical record of an update or create, nothing for a delete.
\<close>

fun set_step :: "'c env \<Rightarrow> Client \<Rightarrow> string \<Rightarrow> call \<Rightarrow> call list \<Rightarrow> error + 'c option" where
  "set_step E c zone (PUT_record zoneID recordID record) log =
     (case http_record E c log of
        Inl e \<Rightarrow> Inl (WrapID ''failed to update record'' recordID e)
      | Inr resultRec \<Rightarrow>
          (case internalToLibdns E zone resultRec of
             Inl e \<Rightarrow> Inl (Wrap ''failed to convert record'' e)
           | Inr libdnsRec \<Rightarrow> Inr (Some libdnsRec)))"
| "set_step E c zone (POST_record zoneID record) log =
     (case http_record E c log of
        Inl e \<Rightarrow> Inl (Wrap ''failed to create record'' e)
      | Inr resultRec \<Rightarrow>
          (case internalToLibdns E zone resultRec of
             Inl e \<Rightarrow> Inl (Wrap ''failed to convert record'' e)
           | Inr libdnsRec \<Rightarrow> Inr (Some libdnsRec)))"
| "set_step E c zone (DELETE_record zoneID recordID) log =
     (case http_delete E c log of
        Some e \<Rightarrow> Inl (WrapID ''failed to delete extra record'' recordID e)
      | None \<Rightarrow> Inr None)"
| "set_step E c zone GET_zones log = Inr None"
| "set_step E c zone (GET_records zoneID recordType) log = Inr None"

text \<open>Carrying out a plan: each call in order, stopping at the first step that fails.\<close>

fun run_plan ::
  "'c env \<Rightarrow> Client \<Rightarrow> string \<Rightarrow> call list \<Rightarrow> 'c list \<Rightarrow> call list \<Rightarrow>
   (error + 'c list) \<times> call list" where
  "run_plan E c zone [] acc log = (Inr acc, log)"
| "run_plan E c zone (x # xs) acc log =
     (case set_step E c zone x (log @ [x]) of
        Inl e \<Rightarrow> (Inl e, log @ [x])
      | Inr None \<Rightarrow> run_plan E c zone xs acc (log @ [x])
      | Inr (Some libdnsRec) \<Rightarrow> run_plan E c zone xs (acc @ [libdnsRec]) (log @ [x]))"

fun writes_from :: "int \<Rightarrow> Record list \<Rightarrow> nat \<Rightarrow> Record list \<Rightarrow> call list" where
  "writes_from zoneID existing i [] = []"
| "writes_from zoneID existing i (r # rs) =
     (if i < length existing then PUT_record zoneID (ID (existing ! i)) r
      else POST_record zoneID r) # writes_from zoneID existing (Suc i) rs"

fun is_write :: "call \<Rightarrow> bool" where
  "is_write (PUT_record zoneID recordID record) = True"
| "is_write (POST_record zoneID record) = True"
| "is_write x = False"

text \<open>Inputs of the test runs.\<close>

definition www_input :: RR where
  "www_input = \<lparr>rr_Name = ''www'', rr_Type = ''A'', rr_Data = ''192.0.2.100'',
     rr_TTL = 7200000000000\<rparr>"

definition www_reject :: RR where
  "www_reject = \<lparr>rr_Name = ''www'', rr_Type = ''A'', rr_Data = ''reject'',
     rr_TTL = 7200000000000\<rparr>"

definition mail_input :: "string \<Rightarrow> RR" where
  "mail_input d = \<lparr>rr_Name = ''mail.example.com.'', rr_Type = ''A'', rr_Data = d,
     rr_TTL = 300000000000\<rparr>"

definition a_record :: "int \<Rightarrow> string \<Rightarrow> string \<Rightarrow> int \<Rightarrow> Record" where
  "a_record i n d t = \<lparr>ID = i, Name = n, Type = ''A'', Content = d, TTL = t, Priority = 0\<rparr>"

definition a_rr :: "string \<Rightarrow> string \<Rightarrow> int \<Rightarrow> RR" where
  "a_rr n d t = \<lparr>rr_Name = n, rr_Type = ''A'', rr_Data = d, rr_TTL = t\<rparr>"



text \<open>
  A byte below 128 that is none of the six ASCII spaces: such a byte never starts a
  white-space rune.
\<close>

definition plain :: "char \<Rightarrow> bool" where
  "plain c = ((of_char c :: nat) < 128 \<and> (of_char c :: nat) \<notin> {9, 10, 11, 12, 13, 32})"

definition mx_spaced :: RR where
  "mx_spaced = \<lparr>rr_Name = ''@'', rr_Type = ''MX'', rr_Data = '' 10  mail.example.com '',
     rr_TTL = 3600000000000\<rparr>"

text \<open>The record that an update or create call sends.\<close>

fun written :: "call \<Rightarrow> Record option" where
  "written (PUT_record zoneID recordID record) = Some record"
| "written (POST_record zoneID record) = Some record"
| "written x = None"

definition bad_input :: RR where
  "bad_input = \<lparr>rr_Name = ''odd'', rr_Type = ''BAD'', rr_Data = ''x'', rr_TTL = 60000000000\<rparr>"

definition bad_record :: "int \<Rightarrow> Record" where
  "bad_record i = \<lparr>ID = i, Name = ''odd'', Type = ''BAD'', Content = ''x'', TTL = 60, Priority = 0\<rparr>"

text \<open>
  SRV data whose fields are set apart by white space of every kind \<open>unicode.IsSpace\<close> knows:
  U+1680 and U+0085 in front; a tab, U+00A0 with a line feed, U+2003 with U+3000 between the
  fields; U+205F, U+2028, U+2029, U+202F, carriage return, vertical tab, form feed, U+2000
  and U+200A behind. The last field contains U+200B, which is no white space.
\<close>

definition srv_unicode_data :: string where
  "srv_unicode_data =
     [CHR 0xE1, CHR 0x9A, CHR 0x80, CHR 0xC2, CHR 0x85] @ ''10'' @ [CHR 0x09] @ ''20'' @
     [CHR 0xC2, CHR 0xA0, CHR 0x0A] @ ''5060'' @
     [CHR 0xE2, CHR 0x80, CHR 0x83, CHR 0xE3, CHR 0x80, CHR 0x80] @
     ''sip'' @ [CHR 0xE2, CHR 0x80, CHR 0x8B] @ ''.example.com'' @
     [CHR 0xE2, CHR 0x81, CHR 0x9F, CHR 0xE2, CHR 0x80, CHR 0xA8, CHR 0xE2, CHR 0x80, CHR 0xA9,
      CHR 0xE2, CHR 0x80, CHR 0xAF, CHR 0x0D, CHR 0x0B, CHR 0x0C, CHR 0xE2, CHR 0x80, CHR 0x80,
      CHR 0xE2, CHR 0x80, CHR 0x8A]"

definition srv_unicode :: RR where
  "srv_unicode = \<lparr>rr_Name = ''_sip._tcp'', rr_Type = ''SRV'', rr_Data = srv_unicode_data,
     rr_TTL = 3600000000000\<rparr>"

section \<open>Suffixes\<close>

lemma HasSuffix_append [simp]: "HasSuffix (s @ suf) suf"
  by (simp add: HasSuffix_def)

lemma TrimSuffix_append [simp]: "TrimSuffix (s @ suf) suf = s"
  by (simp add: TrimSuffix_def)

lemma TrimSuffix_id: "\<not> HasSuffix s suf \<Longrightarrow> TrimSuffix s suf = s"
  by (simp add: TrimSuffix_def)

lemma length_TrimSuffix: "length (TrimSuffix s suf) \<le> length s"
  by (simp add: TrimSuffix_def)

lemma HasSuffix_longer: "length s < length suf \<Longrightarrow> \<not> HasSuffix s suf"
  by (simp add: HasSuffix_def)

section \<open>Apex names\<close>

lemma apex_name_zone: "apex_name zone zone = ''@''"
proof -
  have "\<not> HasSuffix (TrimSuffix zone ''.'') (''.'' @ TrimSuffix zone ''.'')"
    by (rule HasSuffix_longer) simp
  then show ?thesis
    by (simp add: apex_name_def CutSuffix_def Let_def)
qed

lemma apex_name_bare_zone: "apex_name zone (TrimSuffix zone ''.'') = ''@''"
proof -
  have "length (TrimSuffix (TrimSuffix zone ''.'') ''.'') \<le> length (TrimSuffix zone ''.'')"
    by (rule length_TrimSuffix)
  then have "\<not> HasSuffix (TrimSuffix (TrimSuffix zone ''.'') ''.'') (''.'' @ TrimSuffix zone ''.'')"
    by (intro HasSuffix_longer) simp
  then show ?thesis
    by (simp add: apex_name_def CutSuffix_def Let_def)
qed

lemma apex_name_at: "apex_name zone ''@'' = ''@''"
proof -
  have "\<not> HasSuffix ''@'' (''.'' @ z)" for z
    by (cases z) (auto simp: HasSuffix_def)
  moreover have "TrimSuffix ''@'' ''.'' = ''@''"
    by (simp add: TrimSuffix_def HasSuffix_def)
  ultimately show ?thesis
    by (simp add: apex_name_def CutSuffix_def Let_def)
qed

lemma fqdn_name_apex:
  "name = [] \<or> name = ''@'' \<Longrightarrow> fqdn_name zone name = TrimSuffix zone ''.'' @ ''.''"
proof -
  assume a: "name = [] \<or> name = ''@''"
  have "HasSuffix zone ''.'' \<Longrightarrow> TrimSuffix zone ''.'' @ ''.'' = zone"
    by (simp add: TrimSuffix_def HasSuffix_def) (metis append_take_drop_id)
  with a show ?thesis
    by (auto simp: fqdn_name_def Let_def TrimSuffix_id)
qed

text \<open>
  C2, as the code has it. A canonical name equal to the zone as given, or to the zone
  without one trailing dot, or equal to \<open>@\<close>, becomes the provider name \<open>@\<close>. In the other
  direction the provider name \<open>@\<close> (or the empty name) of a record whose type is not SRV
  becomes the zone name ending in exactly the dot that closes it; for an SRV record the
  name \<open>_service._tcp\<close> is put in its place first.
\<close>

theorem apex_roundtrip:
  "(rr_Name (rr_RR E rec) = zone \<or> rr_Name (rr_RR E rec) = TrimSuffix zone ''.'' \<or>
    rr_Name (rr_RR E rec) = ''@'' \<longrightarrow> Name (libdnsToInternal E zone rec) = ''@'') \<and>
   ((Name r = ''@'' \<or> Name r = []) \<and> Type r \<noteq> ''SRV'' \<longrightarrow>
      rr_Name (internalToLibdns_rr zone r) = TrimSuffix zone ''.'' @ ''.'') \<and>
   ((Name r = ''@'' \<or> Name r = []) \<and> Type r = ''SRV'' \<longrightarrow>
      rr_Name (internalToLibdns_rr zone r) =
      rr_Name (internalToLibdns_rr zone (r\<lparr>Name := ''_service._tcp''\<rparr>)))"
  by (auto simp: libdnsToInternal_def Let_def apex_name_zone apex_name_bare_zone apex_name_at
      internalToLibdns_rr_def fqdn_name_apex)

theorem apex_roundtrip_witness:
  "Name (libdnsToInternal (test_env [] []) ''example.com.''
      \<lparr>rr_Name = ''example.com'', rr_Type = ''A'', rr_Data = ''192.0.2.1'',
       rr_TTL = 3600000000000\<rparr>) = ''@'' \<and>
   rr_Name (internalToLibdns_rr ''example.com''
      \<lparr>ID = 1, Name = ''@'', Type = ''A'', Content = ''192.0.2.1'', TTL = 3600, Priority = 0\<rparr>)
     = ''example.com.'' \<and>
   rr_Name (internalToLibdns_rr ''example.com''
      \<lparr>ID = 5, Name = ''@'', Type = ''SRV'', Content = ''20 5060 sip.example.com'',
       TTL = 3600, Priority = 10\<rparr>) = ''_service._tcp.example.com.''"
  using apex_roundtrip [of "test_env [] []"
      "\<lparr>rr_Name = ''example.com'', rr_Type = ''A'', rr_Data = ''192.0.2.1'',
        rr_TTL = 3600000000000\<rparr>" "''example.com.''"
      "\<lparr>ID = 1, Name = ''@'', Type = ''A'', Content = ''192.0.2.1'', TTL = 3600, Priority = 0\<rparr>"]
    apex_roundtrip [of "test_env [] []"
      "\<lparr>rr_Name = ''example.com'', rr_Type = ''A'', rr_Data = ''192.0.2.1'',
        rr_TTL = 3600000000000\<rparr>" "''example.com''"
      "\<lparr>ID = 5, Name = ''@'', Type = ''SRV'', Content = ''20 5060 sip.example.com'',
       TTL = 3600, Priority = 10\<rparr>"]
  by (simp add: test_env_def TrimSuffix_def HasSuffix_def internalToLibdns_rr_def fqdn_name_def)

text \<open>
  C2 as stated fails for SRV: the provider name \<open>@\<close> of an SRV record in the zone
  \<open>example.com\<close> does not become \<open>example.com.\<close> but \<open>_service._tcp.example.com.\<close>.
\<close>

theorem apex_srv_counterexample:
  "rr_Name (internalToLibdns_rr ''example.com''
      \<lparr>ID = 5, Name = ''@'', Type = ''SRV'', Content = ''20 5060 sip.example.com'',
       TTL = 3600, Priority = 10\<rparr>) = ''_service._tcp.example.com.'' \<and>
   ''_service._tcp.example.com.'' \<noteq> ''example.com'' @ ''.''"
  by (simp add: internalToLibdns_rr_def fqdn_name_def HasSuffix_def TrimSuffix_def)

text \<open>
  The apex written with its trailing dot, in a zone given without one, is compared before
  its dot is removed and keeps its name.
\<close>

lemma apex_fqdn_bare_zone:
  "Name (libdnsToInternal (test_env [] []) ''example.com''
      \<lparr>rr_Name = ''example.com.'', rr_Type = ''A'', rr_Data = ''192.0.2.1'',
       rr_TTL = 3600000000000\<rparr>) = ''example.com.''"
  by (simp add: libdnsToInternal_def test_env_def apex_name_def HasSuffix_def TrimSuffix_def
      CutSuffix_def Let_def)

section \<open>Priorities of MX and SRV records\<close>

lemma Fields_mx: "Fields ''10 mail.example.com'' = [''10'', ''mail.example.com'']"
  by (simp add: Fields_def space_width_def flush_def)

lemma Fields_srv:
  "Fields ''10 20 5060 sip.example.com'' = [''10'', ''20'', ''5060'', ''sip.example.com'']"
  by (simp add: Fields_def space_width_def flush_def)

lemma Sscanf_d_10: "Sscanf_d ''10'' 0 = 10"
  by (simp add: Sscanf_d_def is_digit_def dec_value_def digit_val_def)

lemma Sprintf_d_10: "Sprintf_d 10 = ''10''"
  by (simp add: Sprintf_d_def nat_dec.simps digit_char_def)

lemma digit_char_digit:
  assumes "d < 10"
  shows "is_digit (digit_char d)" and "digit_val (digit_char d) = int d"
proof -
  from assms have "d = 0 \<or> d = 1 \<or> d = 2 \<or> d = 3 \<or> d = 4 \<or> d = 5 \<or> d = 6 \<or> d = 7 \<or>
      d = 8 \<or> d = 9"
    by arith
  then show "is_digit (digit_char d)" and "digit_val (digit_char d) = int d"
    by (auto simp: digit_char_def digit_val_def is_digit_def)
qed

lemma dec_value_snoc: "dec_value (ds @ [c]) = 10 * dec_value ds + digit_val c"
  by (simp add: dec_value_def)

lemma nat_dec_digits:
  "(\<forall>c\<in>set (nat_dec m). is_digit c) \<and> nat_dec m \<noteq> [] \<and> dec_value (nat_dec m) = int m"
proof (induction m rule: nat_dec.induct)
  case (1 n)
  show ?case
  proof (cases "n < 10")
    case True
    then show ?thesis
      using digit_char_digit [of n]
      by (subst (1 2 3) nat_dec.simps) (simp add: dec_value_def)
  next
    case False
    have m: "n mod 10 < 10" by simp
    have "int n = 10 * int (n div 10) + int (n mod 10)"
      using mult_div_mod_eq [of 10 "int n"] by (simp add: zdiv_int zmod_int)
    with False 1 digit_char_digit [OF m] show ?thesis
      by (subst (1 2 3) nat_dec.simps) (simp add: dec_value_snoc)
  qed
qed

lemma Sscanf_Sprintf:
  assumes "- (2 ^ 63) \<le> n" and "n < 2 ^ 63"
  shows "Sscanf_d (Sprintf_d n) old = n"
proof -
  have run: "takeWhile is_digit (nat_dec m) = nat_dec m" for m
    using nat_dec_digits [of m] by (intro takeWhile_eq_all_conv [THEN iffD2]) blast
  have h: "is_digit (hd (nat_dec m))" for m
    using nat_dec_digits [of m] by (cases "nat_dec m") auto
  have s: "hd (nat_dec m) \<noteq> CHR ''-''" "hd (nat_dec m) \<noteq> CHR ''+''" for m
    using h [of m] by (auto simp: is_digit_def)
  show ?thesis
  proof (cases "n < 0")
    case True
    with assms show ?thesis
      using nat_dec_digits [of "nat (- n)"]
      by (simp add: Sscanf_d_def Sprintf_d_def Let_def run)
  next
    case False
    with assms show ?thesis
      using nat_dec_digits [of "nat n"] s [of "nat n"]
      by (simp add: Sscanf_d_def Sprintf_d_def Let_def run)
  qed
qed

lemma plain_digit: "is_digit c \<Longrightarrow> plain c"
  by (auto simp: plain_def is_digit_def)

lemma plain_Sprintf: "c \<in> set (Sprintf_d n) \<Longrightarrow> plain c"
  using nat_dec_digits [of "nat n"] nat_dec_digits [of "nat (- n)"]
  by (auto simp: Sprintf_d_def plain_digit split: if_splits) (simp add: plain_def)

lemma Sprintf_nonempty: "Sprintf_d n \<noteq> []"
  using nat_dec_digits [of "nat n"] by (simp add: Sprintf_d_def)

lemma space_width_plain: "plain c \<Longrightarrow> space_width (c # cs) = 0"
  by (cases cs; cases "tl cs") (auto simp: space_width_def plain_def)

lemma space_width_space: "space_width (CHR '' '' # cs) = 1"
  by (simp add: space_width_def)

lemma fields_from_plain:
  "\<forall>c\<in>set t. plain c \<Longrightarrow> fields_from cur (t @ rest) = fields_from (cur @ t) rest"
  by (induction t arbitrary: cur) (simp_all add: space_width_plain)

lemma fields_from_Join:
  "\<forall>t\<in>set toks. t \<noteq> [] \<and> (\<forall>c\<in>set t. plain c) \<Longrightarrow>
   fields_from [] (Join toks '' '') = toks"
proof (induction toks)
  case Nil
  then show ?case by (simp add: flush_def)
next
  case (Cons x ys)
  show ?case
  proof (cases ys)
    case Nil
    with Cons.prems show ?thesis
      using fields_from_plain [of x "[]" "[]"] by (simp add: flush_def)
  next
    case (Cons y zs)
    with Cons.prems Cons.IH show ?thesis
      using fields_from_plain [of x "[]" "CHR '' '' # Join (y # zs) '' ''"]
      by (simp add: flush_def space_width_space)
  qed
qed

lemma Fields_Join:
  "\<forall>t\<in>set toks. t \<noteq> [] \<and> (\<forall>c\<in>set t. plain c) \<Longrightarrow> Fields (Join toks '' '') = toks"
  by (simp add: Fields_def fields_from_Join)

lemma Fields_mx_spaced: "Fields '' 10  mail.example.com '' = [''10'', ''mail.example.com'']"
  by (simp add: Fields_def space_width_def flush_def)

lemma Fields_srv_unicode:
  "Fields srv_unicode_data =
     [''10'', ''20'', ''5060'', ''sip'' @ [CHR 0xE2, CHR 0x80, CHR 0x8B] @ ''.example.com'']"
  by (simp add: srv_unicode_data_def Fields_def space_width_def flush_def)

lemma Sscanf_d_samples:
  "Sscanf_d ''1_0'' 0 = 1" "Sscanf_d ''abc'' 0 = 0" "Sscanf_d ''+7'' 0 = 7"
  "Sscanf_d ''-5x'' 0 = - 5" "Sscanf_d ''9223372036854775808'' 0 = 0"
  "Sscanf_d ''-9223372036854775808'' 0 = - 9223372036854775808"
  by (simp_all add: Sscanf_d_def is_digit_def dec_value_def digit_val_def)

text \<open>
  C3, as the code has it. For an MX record whose data has at least two fields and an SRV
  record whose data has at least four, the provider priority is what \<open>Sscanf\<close> reads from
  the first field and the content is the other fields joined by one space; the way back
  writes the priority, a space and the content. The data \<open>10 mail.example.com\<close> of an MX
  record gives the content \<open>mail.example.com\<close> and the priority 10, and comes back
  unchanged; so does \<open>10 20 5060 sip.example.com\<close> of an SRV record, with content
  \<open>20 5060 sip.example.com\<close>. Surplus white space is not kept: the MX data
  \<open> 10  mail.example.com \<close> comes back as \<open>10 mail.example.com\<close>, and every kind of
  Unicode white space sets fields apart. The priority is the decimal integer the first
  field starts with, under an optional sign, and 0 when there is none or it does not fit in
  64 bits. In general MX data made
  of a decimal 64-bit priority, one space and a target of plain bytes, and SRV data made of
  such a priority and three such fields, give that priority and the rest as content, and
  come back unchanged.
\<close>

theorem priority_translation:
  "(rr_Type (rr_RR E rec) = ''MX'' \<and> 2 \<le> length (Fields (rr_Data (rr_RR E rec))) \<or>
    rr_Type (rr_RR E rec) = ''SRV'' \<and> 4 \<le> length (Fields (rr_Data (rr_RR E rec))) \<longrightarrow>
      Priority (libdnsToInternal E zone rec) = Sscanf_d (hd (Fields (rr_Data (rr_RR E rec)))) 0 \<and>
      Content (libdnsToInternal E zone rec) = Join (tl (Fields (rr_Data (rr_RR E rec)))) '' '') \<and>
   (Type r = ''MX'' \<or> Type r = ''SRV'' \<longrightarrow>
      rr_Data (internalToLibdns_rr zone r) = Sprintf_d (Priority r) @ '' '' @ Content r) \<and>
   (rr_Type (rr_RR E rec) = ''MX'' \<and> rr_Data (rr_RR E rec) = ''10 mail.example.com'' \<longrightarrow>
      Content (libdnsToInternal E zone rec) = ''mail.example.com'' \<and>
      Priority (libdnsToInternal E zone rec) = 10 \<and>
      rr_Data (internalToLibdns_rr zone (libdnsToInternal E zone rec)) = ''10 mail.example.com'') \<and>
   (rr_Type (rr_RR E rec) = ''SRV'' \<and> rr_Data (rr_RR E rec) = ''10 20 5060 sip.example.com'' \<longrightarrow>
      Content (libdnsToInternal E zone rec) = ''20 5060 sip.example.com'' \<and>
      Priority (libdnsToInternal E zone rec) = 10 \<and>
      rr_Data (internalToLibdns_rr zone (libdnsToInternal E zone rec)) =
        ''10 20 5060 sip.example.com'') \<and>
   (rr_Type (rr_RR E rec) = ''MX'' \<and> rr_Data (rr_RR E rec) = '' 10  mail.example.com '' \<longrightarrow>
      Content (libdnsToInternal E zone rec) = ''mail.example.com'' \<and>
      Priority (libdnsToInternal E zone rec) = 10 \<and>
      rr_Data (internalToLibdns_rr zone (libdnsToInternal E zone rec)) = ''10 mail.example.com'') \<and>
   (rr_Type (rr_RR E rec) = ''MX'' \<and> rr_Data (rr_RR E rec) = Sprintf_d n @ '' '' @ t \<and>
    - (2 ^ 63) \<le> n \<and> n < 2 ^ 63 \<and> t \<noteq> [] \<and> (\<forall>c\<in>set t. plain c) \<longrightarrow>
      Content (libdnsToInternal E zone rec) = t \<and>
      Priority (libdnsToInternal E zone rec) = n \<and>
      rr_Data (internalToLibdns_rr zone (libdnsToInternal E zone rec)) = rr_Data (rr_RR E rec)) \<and>
   (rr_Type (rr_RR E rec) = ''SRV'' \<and>
    rr_Data (rr_RR E rec) = Sprintf_d n @ '' '' @ w @ '' '' @ pt @ '' '' @ t \<and>
    - (2 ^ 63) \<le> n \<and> n < 2 ^ 63 \<and> w \<noteq> [] \<and> (\<forall>c\<in>set w. plain c) \<and>
    pt \<noteq> [] \<and> (\<forall>c\<in>set pt. plain c) \<and> t \<noteq> [] \<and> (\<forall>c\<in>set t. plain c) \<longrightarrow>
      Content (libdnsToInternal E zone rec) = w @ '' '' @ pt @ '' '' @ t \<and>
      Priority (libdnsToInternal E zone rec) = n \<and>
      rr_Data (internalToLibdns_rr zone (libdnsToInternal E zone rec)) = rr_Data (rr_RR E rec)) \<and>
   (rr_Type (rr_RR E rec) = ''SRV'' \<and> rr_Data (rr_RR E rec) = srv_unicode_data \<longrightarrow>
      Content (libdnsToInternal E zone rec) =
        ''20 5060 sip'' @ [CHR 0xE2, CHR 0x80, CHR 0x8B] @ ''.example.com'' \<and>
      Priority (libdnsToInternal E zone rec) = 10) \<and>
   Sscanf_d ''1_0'' 0 = 1 \<and> Sscanf_d ''abc'' 0 = 0 \<and> Sscanf_d ''+7'' 0 = 7 \<and>
   Sscanf_d ''-5x'' 0 = - 5 \<and> Sscanf_d ''9223372036854775808'' 0 = 0 \<and>
   Sscanf_d ''-9223372036854775808'' 0 = - 9223372036854775808"
proof (intro conjI impI)
  assume "rr_Type (rr_RR E rec) = ''MX'' \<and> 2 \<le> length (Fields (rr_Data (rr_RR E rec))) \<or>
    rr_Type (rr_RR E rec) = ''SRV'' \<and> 4 \<le> length (Fields (rr_Data (rr_RR E rec)))"
  then show "Priority (libdnsToInternal E zone rec) = Sscanf_d (hd (Fields (rr_Data (rr_RR E rec)))) 0"
    and "Content (libdnsToInternal E zone rec) = Join (tl (Fields (rr_Data (rr_RR E rec)))) '' ''"
    by (auto simp: libdnsToInternal_def split_priority_def Let_def)
next
  assume "Type r = ''MX'' \<or> Type r = ''SRV''"
  then show "rr_Data (internalToLibdns_rr zone r) = Sprintf_d (Priority r) @ '' '' @ Content r"
    by (auto simp: internalToLibdns_rr_def Let_def)
next
  assume a: "rr_Type (rr_RR E rec) = ''MX'' \<and> rr_Data (rr_RR E rec) = ''10 mail.example.com''"
  then show "Content (libdnsToInternal E zone rec) = ''mail.example.com''"
    and "Priority (libdnsToInternal E zone rec) = 10"
    and "rr_Data (internalToLibdns_rr zone (libdnsToInternal E zone rec)) = ''10 mail.example.com''"
    by (simp_all add: libdnsToInternal_def split_priority_def Let_def Fields_mx Sscanf_d_10
        internalToLibdns_rr_def Sprintf_d_10)
next
  assume a: "rr_Type (rr_RR E rec) = ''SRV'' \<and> rr_Data (rr_RR E rec) = ''10 20 5060 sip.example.com''"
  then show "Content (libdnsToInternal E zone rec) = ''20 5060 sip.example.com''"
    and "Priority (libdnsToInternal E zone rec) = 10"
    and "rr_Data (internalToLibdns_rr zone (libdnsToInternal E zone rec)) = ''10 20 5060 sip.example.com''"
    by (simp_all add: libdnsToInternal_def split_priority_def Let_def Fields_srv Sscanf_d_10
        internalToLibdns_rr_def Sprintf_d_10)
next
  assume a: "rr_Type (rr_RR E rec) = ''MX'' \<and> rr_Data (rr_RR E rec) = '' 10  mail.example.com ''"
  then show "Content (libdnsToInternal E zone rec) = ''mail.example.com''"
    and "Priority (libdnsToInternal E zone rec) = 10"
    and "rr_Data (internalToLibdns_rr zone (libdnsToInternal E zone rec)) = ''10 mail.example.com''"
    by (simp_all add: libdnsToInternal_def split_priority_def Let_def Fields_mx_spaced Sscanf_d_10
        internalToLibdns_rr_def Sprintf_d_10)
next
  assume a: "rr_Type (rr_RR E rec) = ''MX'' \<and> rr_Data (rr_RR E rec) = Sprintf_d n @ '' '' @ t \<and>
    - (2 ^ 63) \<le> n \<and> n < 2 ^ 63 \<and> t \<noteq> [] \<and> (\<forall>c\<in>set t. plain c)"
  then have "\<forall>x\<in>set [Sprintf_d n, t]. x \<noteq> [] \<and> (\<forall>c\<in>set x. plain c)"
    by (simp add: Sprintf_nonempty plain_Sprintf)
  from Fields_Join [OF this] a have f: "Fields (rr_Data (rr_RR E rec)) = [Sprintf_d n, t]"
    by simp
  from a have s: "Sscanf_d (Sprintf_d n) 0 = n"
    by (simp add: Sscanf_Sprintf)
  from a f s show "Content (libdnsToInternal E zone rec) = t"
    and "Priority (libdnsToInternal E zone rec) = n"
    and "rr_Data (internalToLibdns_rr zone (libdnsToInternal E zone rec)) = rr_Data (rr_RR E rec)"
    by (simp_all add: libdnsToInternal_def split_priority_def Let_def internalToLibdns_rr_def)
next
  assume a: "rr_Type (rr_RR E rec) = ''SRV'' \<and>
    rr_Data (rr_RR E rec) = Sprintf_d n @ '' '' @ w @ '' '' @ pt @ '' '' @ t \<and>
    - (2 ^ 63) \<le> n \<and> n < 2 ^ 63 \<and> w \<noteq> [] \<and> (\<forall>c\<in>set w. plain c) \<and>
    pt \<noteq> [] \<and> (\<forall>c\<in>set pt. plain c) \<and> t \<noteq> [] \<and> (\<forall>c\<in>set t. plain c)"
  then have "\<forall>x\<in>set [Sprintf_d n, w, pt, t]. x \<noteq> [] \<and> (\<forall>c\<in>set x. plain c)"
    by (simp add: Sprintf_nonempty plain_Sprintf)
  from Fields_Join [OF this] a
  have f: "Fields (rr_Data (rr_RR E rec)) = [Sprintf_d n, w, pt, t]"
    by simp
  from a have s: "Sscanf_d (Sprintf_d n) 0 = n"
    by (simp add: Sscanf_Sprintf)
  from a f s show "Content (libdnsToInternal E zone rec) = w @ '' '' @ pt @ '' '' @ t"
    and "Priority (libdnsToInternal E zone rec) = n"
    and "rr_Data (internalToLibdns_rr zone (libdnsToInternal E zone rec)) = rr_Data (rr_RR E rec)"
    by (simp_all add: libdnsToInternal_def split_priority_def Let_def internalToLibdns_rr_def)
next
  assume a: "rr_Type (rr_RR E rec) = ''SRV'' \<and> rr_Data (rr_RR E rec) = srv_unicode_data"
  then show "Content (libdnsToInternal E zone rec) =
        ''20 5060 sip'' @ [CHR 0xE2, CHR 0x80, CHR 0x8B] @ ''.example.com''"
    and "Priority (libdnsToInternal E zone rec) = 10"
    by (simp_all add: libdnsToInternal_def split_priority_def Let_def Fields_srv_unicode
        Sscanf_d_10)
next
  show "Sscanf_d ''1_0'' 0 = 1" and "Sscanf_d ''abc'' 0 = 0" and "Sscanf_d ''+7'' 0 = 7"
    and "Sscanf_d ''-5x'' 0 = - 5" and "Sscanf_d ''9223372036854775808'' 0 = 0"
    and "Sscanf_d ''-9223372036854775808'' 0 = - 9223372036854775808"
    by (rule Sscanf_d_samples)+
qed

theorem priority_translation_witness:
  "libdnsToInternal (test_env [] []) ''example.com'' mx_example =
     \<lparr>ID = 0, Name = ''@'', Type = ''MX'', Content = ''mail.example.com'', TTL = 3600,
      Priority = 10\<rparr> \<and>
   rr_Data (internalToLibdns_rr ''example.com''
     (libdnsToInternal (test_env [] []) ''example.com'' mx_example)) = ''10 mail.example.com'' \<and>
   libdnsToInternal (test_env [] []) ''example.com'' srv_example =
     \<lparr>ID = 0, Name = ''_sip._tcp'', Type = ''SRV'', Content = ''20 5060 sip.example.com'',
      TTL = 3600, Priority = 10\<rparr> \<and>
   rr_Data (internalToLibdns_rr ''example.com''
     (libdnsToInternal (test_env [] []) ''example.com'' srv_example)) =
     ''10 20 5060 sip.example.com'' \<and>
   libdnsToInternal (test_env [] []) ''example.com'' mx_spaced =
     \<lparr>ID = 0, Name = ''@'', Type = ''MX'', Content = ''mail.example.com'', TTL = 3600,
      Priority = 10\<rparr> \<and>
   rr_Data (internalToLibdns_rr ''example.com''
     (libdnsToInternal (test_env [] []) ''example.com'' mx_spaced)) = ''10 mail.example.com'' \<and>
   rr_Data mx_example = Sprintf_d 10 @ '' '' @ ''mail.example.com'' \<and>
   rr_Data (internalToLibdns_rr ''example.com''
     (libdnsToInternal (test_env [] []) ''example.com'' mx_example)) = rr_Data mx_example"
proof -
  let ?E = "test_env [] [] :: RR env"
  have mx: "rr_Type (rr_RR ?E mx_example) = ''MX'' \<and>
      rr_Data (rr_RR ?E mx_example) = ''10 mail.example.com''"
    by (simp add: test_env_def mx_example_def)
  have srv: "rr_Type (rr_RR ?E srv_example) = ''SRV'' \<and>
      rr_Data (rr_RR ?E srv_example) = ''10 20 5060 sip.example.com''"
    by (simp add: test_env_def srv_example_def)
  have sp: "rr_Type (rr_RR ?E mx_spaced) = ''MX'' \<and>
      rr_Data (rr_RR ?E mx_spaced) = '' 10  mail.example.com ''"
    by (simp add: test_env_def mx_spaced_def)
  have n1: "Name (libdnsToInternal ?E ''example.com'' mx_example) = ''@''"
    by (simp add: libdnsToInternal_def Let_def test_env_def mx_example_def apex_name_at)
  have n2: "Name (libdnsToInternal ?E ''example.com'' srv_example) = ''_sip._tcp''"
    by (simp add: libdnsToInternal_def Let_def test_env_def srv_example_def apex_name_def
        TrimSuffix_def HasSuffix_def CutSuffix_def)
  have n3: "Name (libdnsToInternal ?E ''example.com'' mx_spaced) = ''@''"
    by (simp add: libdnsToInternal_def Let_def test_env_def mx_spaced_def apex_name_at)
  note t1 = priority_translation [where E = ?E and rec = mx_example and zone = "''example.com''"]
  note t2 = priority_translation [where E = ?E and rec = srv_example and zone = "''example.com''"]
  note t3 = priority_translation [where E = ?E and rec = mx_spaced and zone = "''example.com''"]
  have r1: "libdnsToInternal ?E ''example.com'' mx_example =
     \<lparr>ID = 0, Name = ''@'', Type = ''MX'', Content = ''mail.example.com'', TTL = 3600,
      Priority = 10\<rparr>"
    using t1 mx n1 by (simp add: libdnsToInternal_def Let_def test_env_def mx_example_def)
  have r2: "libdnsToInternal ?E ''example.com'' srv_example =
     \<lparr>ID = 0, Name = ''_sip._tcp'', Type = ''SRV'', Content = ''20 5060 sip.example.com'',
      TTL = 3600, Priority = 10\<rparr>"
    using t2 srv n2 by (simp add: libdnsToInternal_def Let_def test_env_def srv_example_def)
  have r3: "libdnsToInternal ?E ''example.com'' mx_spaced =
     \<lparr>ID = 0, Name = ''@'', Type = ''MX'', Content = ''mail.example.com'', TTL = 3600,
      Priority = 10\<rparr>"
    using t3 sp n3 by (simp add: libdnsToInternal_def Let_def test_env_def mx_spaced_def)
  have d: "rr_Data (rr_RR ?E mx_example) = Sprintf_d 10 @ '' '' @ ''mail.example.com''"
    by (simp add: test_env_def mx_example_def Sprintf_d_10)
  have pl: "\<forall>c\<in>set ''mail.example.com''. plain c"
    by (simp add: plain_def)
  have g: "rr_Data (internalToLibdns_rr ''example.com''
      (libdnsToInternal ?E ''example.com'' mx_example)) = rr_Data (rr_RR ?E mx_example)"
    using priority_translation [where E = ?E and rec = mx_example and zone = "''example.com''"
        and n = 10 and t = "''mail.example.com''"] mx d pl
    by simp
  have i: "rr_RR ?E mx_example = mx_example"
    by (simp add: test_env_def)
  have q: "rr_Data (internalToLibdns_rr ''example.com''
      (libdnsToInternal ?E ''example.com'' mx_example)) = rr_Data mx_example"
    using g by (simp only: i)
  have d': "rr_Data mx_example = Sprintf_d 10 @ '' '' @ ''mail.example.com''"
    using d by (simp only: i)
  have old: "libdnsToInternal ?E ''example.com'' mx_example =
     \<lparr>ID = 0, Name = ''@'', Type = ''MX'', Content = ''mail.example.com'', TTL = 3600,
      Priority = 10\<rparr> \<and>
   rr_Data (internalToLibdns_rr ''example.com''
     (libdnsToInternal ?E ''example.com'' mx_example)) = ''10 mail.example.com'' \<and>
   libdnsToInternal ?E ''example.com'' srv_example =
     \<lparr>ID = 0, Name = ''_sip._tcp'', Type = ''SRV'', Content = ''20 5060 sip.example.com'',
      TTL = 3600, Priority = 10\<rparr> \<and>
   rr_Data (internalToLibdns_rr ''example.com''
     (libdnsToInternal ?E ''example.com'' srv_example)) =
     ''10 20 5060 sip.example.com'' \<and>
   libdnsToInternal ?E ''example.com'' mx_spaced =
     \<lparr>ID = 0, Name = ''@'', Type = ''MX'', Content = ''mail.example.com'', TTL = 3600,
      Priority = 10\<rparr> \<and>
   rr_Data (internalToLibdns_rr ''example.com''
     (libdnsToInternal ?E ''example.com'' mx_spaced)) = ''10 mail.example.com''"
    using t1 t2 t3 mx srv sp r1 r2 r3 by simp
  from old d' q show ?thesis
    by (intro conjI) (elim conjE, assumption)+
qed

text \<open>
  C3 as stated fails for an MX record whose data is a single field: nothing follows the
  first field, yet the content is the whole data.
\<close>

theorem priority_single_field_counterexample:
  "rr_Type (rr_RR (test_env [] []) mx_short) = ''MX'' \<and>
   Fields (rr_Data (rr_RR (test_env [] []) mx_short)) = [''mail.example.com''] \<and>
   Join (tl (Fields (rr_Data (rr_RR (test_env [] []) mx_short)))) '' '' = [] \<and>
   Content (libdnsToInternal (test_env [] []) ''example.com'' mx_short) = ''mail.example.com''"
proof -
  have f: "Fields ''mail.example.com'' = [''mail.example.com'']"
    by (simp add: Fields_def space_width_def flush_def)
  show ?thesis
    by (simp add: test_env_def mx_short_def f libdnsToInternal_def split_priority_def Let_def)
qed

text \<open>
  C9. \<open>libdnsToInternal\<close> returns a provider record for every canonical record (it has no
  error result, and reads \<open>parts[0]\<close> only behind the length checks). An MX record whose
  data has fewer than two fields and an SRV record whose data has fewer than four keep their
  data as content, with priority 0.
\<close>

theorem libdnsToInternal_malformed:
  "Type (libdnsToInternal E zone rec) = rr_Type (rr_RR E rec) \<and>
   (rr_Type (rr_RR E rec) = ''MX'' \<and> length (Fields (rr_Data (rr_RR E rec))) < 2 \<or>
    rr_Type (rr_RR E rec) = ''SRV'' \<and> length (Fields (rr_Data (rr_RR E rec))) < 4 \<longrightarrow>
      Content (libdnsToInternal E zone rec) = rr_Data (rr_RR E rec) \<and>
      Priority (libdnsToInternal E zone rec) = 0)"
  by (auto simp: libdnsToInternal_def split_priority_def Let_def)

theorem libdnsToInternal_malformed_witness:
  "length (Fields ''mail.example.com'') = 1 \<and>
   Content (libdnsToInternal (test_env [] []) ''example.com'' mx_short) = ''mail.example.com'' \<and>
   Priority (libdnsToInternal (test_env [] []) ''example.com'' mx_short) = 0 \<and>
   length (Fields ''10 20 5060'') = 3 \<and>
   Content (libdnsToInternal (test_env [] []) ''example.com'' srv_short) = ''10 20 5060'' \<and>
   Priority (libdnsToInternal (test_env [] []) ''example.com'' srv_short) = 0"
proof -
  have f1: "Fields ''mail.example.com'' = [''mail.example.com'']"
    by (simp add: Fields_def space_width_def flush_def)
  have f2: "Fields ''10 20 5060'' = [''10'', ''20'', ''5060'']"
    by (simp add: Fields_def space_width_def flush_def)
  show ?thesis
    using libdnsToInternal_malformed [of "test_env [] []" "''example.com''" mx_short]
      libdnsToInternal_malformed [of "test_env [] []" "''example.com''" srv_short] f1 f2
    by (simp add: test_env_def mx_short_def srv_short_def)
qed

section \<open>Zone resolution\<close>

lemma find_zone_find:
  "find_zone zoneName zones =
     map_option zone_ID (find (\<lambda>z. TrimSuffix (zone_Name z) ''.'' = zoneName) zones)"
  by (induction zones) auto

lemma newClient_test [simp]:
  "newClient (test_env zs rs) test_provider =
     Inr \<lparr>token = ''test-token'', BaseURL = ''http://127.0.0.1''\<rparr>"
  by (simp add: newClient_def test_env_def test_provider_def)

lemma http_zones_test [simp]: "http_zones (test_env zs rs) c log = Inr zs"
  by (simp add: test_env_def)

lemma http_records_test [simp]: "http_records (test_env zs rs) c log = Inr rs"
  by (simp add: test_env_def)

lemma getZoneID_test:
  "getZoneID (test_env test_zones rs) test_provider ''example.com'' [] = (Inr 1, [GET_zones])"
  by (simp add: getZoneID_def getZones_def test_zones_def TrimSuffix_def HasSuffix_def)

lemma wrap64_3600: "wrap64 3600000000000 = 3600000000000"
  by (simp add: wrap64_def)

text \<open>
  C6. When the zone list arrives, \<open>getZoneID\<close> returns the id of the first zone whose name
  without one trailing dot equals the requested name without one trailing dot, compared
  character by character, and the error \<open>zone not found\<close> when there is none. Removing the
  suffix undoes one added dot and leaves a name without a trailing dot as it is.
\<close>

theorem getZoneID_first_match:
  "(newClient E p = Inr c \<and> http_zones E c (log @ [GET_zones]) = Inr zones \<longrightarrow>
      getZoneID E p zone log =
        (case find (\<lambda>z. TrimSuffix (zone_Name z) ''.'' = TrimSuffix zone ''.'') zones of
           Some z \<Rightarrow> Inr (zone_ID z)
         | None \<Rightarrow> Inl (ZoneNotFound zone),
         log @ [GET_zones])) \<and>
   TrimSuffix (s @ ''.'') ''.'' = s \<and>
   (\<not> HasSuffix s ''.'' \<longrightarrow> TrimSuffix s ''.'' = s)"
  by (auto simp: getZoneID_def getZones_def Let_def find_zone_find TrimSuffix_id
      split: option.splits)

theorem getZoneID_first_match_witness:
  "getZoneID (test_env test_zones []) test_provider ''example.com.'' [] = (Inr 1, [GET_zones]) \<and>
   getZoneID (test_env test_zones []) test_provider ''example.org'' [] = (Inr 2, [GET_zones]) \<and>
   getZoneID (test_env test_zones []) test_provider ''Example.com'' [] =
     (Inl (ZoneNotFound ''Example.com''), [GET_zones]) \<and>
   getZoneID (test_env test_zones []) test_provider ''example'' [] =
     (Inl (ZoneNotFound ''example''), [GET_zones]) \<and>
   TrimSuffix (''example.com'' @ ''.'') ''.'' = ''example.com'' \<and>
   TrimSuffix ''example.com'' ''.'' = ''example.com''"
proof -
  have h: "\<not> HasSuffix ''example.com'' ''.''"
    by (simp add: HasSuffix_def)
  have t: "TrimSuffix ''example.com.'' ''.'' = ''example.com''"
    "TrimSuffix ''example.org.'' ''.'' = ''example.org''"
    "TrimSuffix ''example.org'' ''.'' = ''example.org''"
    "TrimSuffix ''Example.com'' ''.'' = ''Example.com''"
    "TrimSuffix ''example'' ''.'' = ''example''"
    "TrimSuffix ''example.com'' ''.'' = ''example.com''"
    by (simp_all add: TrimSuffix_def HasSuffix_def)
  show ?thesis
    using getZoneID_first_match [where E = "test_env test_zones []" and p = test_provider
        and log = "[]" and zones = test_zones and zone = "''example.com.''"
        and s = "''example.com''"]
      getZoneID_first_match [where E = "test_env test_zones []" and p = test_provider
        and log = "[]" and zones = test_zones and zone = "''example.org''"
        and s = "''example.com''"]
      getZoneID_first_match [where E = "test_env test_zones []" and p = test_provider
        and log = "[]" and zones = test_zones and zone = "''Example.com''"
        and s = "''example.com''"]
      getZoneID_first_match [where E = "test_env test_zones []" and p = test_provider
        and log = "[]" and zones = test_zones and zone = "''example''"
        and s = "''example.com''"] h
    by (simp add: test_zones_def t)
qed

section \<open>Listing\<close>

lemma list_loop_map_filter:
  "list_loop E zone records acc =
     acc @ List.map_filter
             (\<lambda>r. case internalToLibdns E zone r of Inl e \<Rightarrow> None | Inr c \<Rightarrow> Some c) records"
  by (induction records arbitrary: acc) (auto simp: List.map_filter_simps split: sum.splits)

text \<open>
  C7. Once the zone is resolved and its records are fetched, \<open>GetRecords\<close> succeeds with
  the translations of the records the codec accepts, in order; a record the codec rejects is
  left out and is no error. No records give the empty result. A zone that matches no entry
  of the zone list gives the error \<open>zone not found\<close>.
\<close>

theorem GetRecords_best_effort:
  "(getZoneID E p zone log = (Inr zoneID, log1) \<and> newClient E p = Inr c \<and>
    http_records E c (log1 @ [GET_records zoneID []]) = Inr records \<longrightarrow>
      GetRecords E p zone log =
        (Inr (List.map_filter
                (\<lambda>r. case internalToLibdns E zone r of Inl e \<Rightarrow> None | Inr c \<Rightarrow> Some c)
                records),
         log1 @ [GET_records zoneID []])) \<and>
   (getZoneID E p zone log = (Inr zoneID, log1) \<and> newClient E p = Inr c \<and>
    http_records E c (log1 @ [GET_records zoneID []]) = Inr [] \<longrightarrow>
      GetRecords E p zone log = (Inr [], log1 @ [GET_records zoneID []])) \<and>
   (newClient E p = Inr c \<and> http_zones E c (log @ [GET_zones]) = Inr zones \<and>
    (\<forall>z \<in> set zones. TrimSuffix (zone_Name z) ''.'' \<noteq> TrimSuffix zone ''.'') \<longrightarrow>
      GetRecords E p zone log = (Inl (ZoneNotFound zone), log @ [GET_zones]))"
proof (intro conjI impI)
  assume "getZoneID E p zone log = (Inr zoneID, log1) \<and> newClient E p = Inr c \<and>
    http_records E c (log1 @ [GET_records zoneID []]) = Inr records"
  then show "GetRecords E p zone log =
        (Inr (List.map_filter
                (\<lambda>r. case internalToLibdns E zone r of Inl e \<Rightarrow> None | Inr c \<Rightarrow> Some c)
                records),
         log1 @ [GET_records zoneID []])"
    by (simp add: GetRecords_def getRecords_def Let_def list_loop_map_filter)
next
  assume "getZoneID E p zone log = (Inr zoneID, log1) \<and> newClient E p = Inr c \<and>
    http_records E c (log1 @ [GET_records zoneID []]) = Inr []"
  then show "GetRecords E p zone log = (Inr [], log1 @ [GET_records zoneID []])"
    by (simp add: GetRecords_def getRecords_def Let_def)
next
  assume a: "newClient E p = Inr c \<and> http_zones E c (log @ [GET_zones]) = Inr zones \<and>
    (\<forall>z \<in> set zones. TrimSuffix (zone_Name z) ''.'' \<noteq> TrimSuffix zone ''.'')"
  then have "find (\<lambda>z. TrimSuffix (zone_Name z) ''.'' = TrimSuffix zone ''.'') zones = None"
    by (simp add: find_None_iff)
  with a have "getZoneID E p zone log = (Inl (ZoneNotFound zone), log @ [GET_zones])"
    by (simp add: getZoneID_def getZones_def Let_def find_zone_find)
  then show "GetRecords E p zone log = (Inl (ZoneNotFound zone), log @ [GET_zones])"
    by (simp add: GetRecords_def)
qed

theorem GetRecords_best_effort_witness:
  "GetRecords (test_env test_zones test_records) test_provider ''example.com'' [] =
     (Inr [\<lparr>rr_Name = ''www.example.com.'', rr_Type = ''A'', rr_Data = ''192.0.2.1'',
            rr_TTL = 3600000000000\<rparr>,
           \<lparr>rr_Name = ''www.example.com.'', rr_Type = ''A'', rr_Data = ''192.0.2.2'',
            rr_TTL = 3600000000000\<rparr>,
           \<lparr>rr_Name = ''mail.example.com.'', rr_Type = ''A'', rr_Data = ''192.0.2.3'',
            rr_TTL = 3600000000000\<rparr>],
      [GET_zones, GET_records 1 []]) \<and>
   GetRecords (test_env test_zones []) test_provider ''example.com'' [] =
     (Inr [], [GET_zones, GET_records 1 []]) \<and>
   GetRecords (test_env test_zones test_records) test_provider ''notfound.com'' [] =
     (Inl (ZoneNotFound ''notfound.com''), [GET_zones])"
proof -
  have nf: "\<forall>z \<in> set test_zones. TrimSuffix (zone_Name z) ''.'' \<noteq> TrimSuffix ''notfound.com'' ''.''"
    by (simp add: test_zones_def TrimSuffix_def HasSuffix_def)
  have tr: "List.map_filter
      (\<lambda>r. case internalToLibdns (test_env test_zones test_records) ''example.com'' r of
              Inl e \<Rightarrow> None | Inr c \<Rightarrow> Some c) test_records =
     [\<lparr>rr_Name = ''www.example.com.'', rr_Type = ''A'', rr_Data = ''192.0.2.1'',
            rr_TTL = 3600000000000\<rparr>,
           \<lparr>rr_Name = ''www.example.com.'', rr_Type = ''A'', rr_Data = ''192.0.2.2'',
            rr_TTL = 3600000000000\<rparr>,
           \<lparr>rr_Name = ''mail.example.com.'', rr_Type = ''A'', rr_Data = ''192.0.2.3'',
            rr_TTL = 3600000000000\<rparr>]"
    by (simp add: List.map_filter_simps test_records_def internalToLibdns_def
        internalToLibdns_rr_def test_env_def fqdn_name_def TrimSuffix_def HasSuffix_def
        wrap64_3600)
  show ?thesis
    using GetRecords_best_effort [where E = "test_env test_zones test_records"
        and p = test_provider and zone = "''example.com''" and log = "[]" and zoneID = 1
        and ?log1.0 = "[GET_zones]" and records = test_records]
      GetRecords_best_effort [where E = "test_env test_zones []"
        and p = test_provider and zone = "''example.com''" and log = "[]" and zoneID = 1
        and ?log1.0 = "[GET_zones]" and records = "[]"]
      GetRecords_best_effort [where E = "test_env test_zones test_records"
        and p = test_provider and zone = "''notfound.com''" and log = "[]"
        and zones = test_zones]
      nf tr
    by (simp add: getZoneID_test)
qed

section \<open>SetRecords carries out the plan\<close>

lemma run_plan_append:
  "run_plan E c zone (xs @ ys) acc log =
     (case run_plan E c zone xs acc log of
        (Inl e, log') \<Rightarrow> (Inl e, log')
      | (Inr acc', log') \<Rightarrow> run_plan E c zone ys acc' log')"
  by (induction xs arbitrary: acc log) (auto split: sum.splits option.splits)

lemma set_inputs_run_plan:
  "set_inputs E c zone zoneID ex i ins acc log =
     run_plan E c zone (writes_from zoneID ex i ins) acc log"
  by (induction ins arbitrary: i acc log)
    (auto simp: updateRecord_def createRecord_def Let_def split: sum.splits)

lemma delete_extra_run_plan:
  "run_plan E c zone (map (\<lambda>j. DELETE_record zoneID (ID (ex ! j))) [i..<length ex]) acc log =
     (case delete_extra E c zoneID ex i log of
        (Some e, log') \<Rightarrow> (Inl e, log')
      | (None, log') \<Rightarrow> (Inr acc, log'))"
proof (induction E c zoneID ex i log rule: delete_extra.induct)
  case (1 E client zoneID existingForKey i log)
  show ?case
  proof (cases "i < length existingForKey")
    case True
    then have u: "[i..<length existingForKey] = i # [Suc i..<length existingForKey]"
      by (simp add: upt_conv_Cons)
    show ?thesis
      using True 1
      by (subst delete_extra.simps)
        (auto simp: u deleteRecord_def Let_def split: option.splits)
  next
    case False
    then show ?thesis
      by (subst delete_extra.simps) simp
  qed
qed

lemma length_writes_from [simp]: "length (writes_from zoneID ex i ins) = length ins"
  by (induction ins arbitrary: i) auto

lemma nth_writes_from:
  "j < length ins \<Longrightarrow>
   writes_from zoneID ex i ins ! j =
     (if i + j < length ex then PUT_record zoneID (ID (ex ! (i + j))) (ins ! j)
      else POST_record zoneID (ins ! j))"
proof (induction ins arbitrary: i j)
  case Nil
  then show ?case by simp
next
  case (Cons r rs)
  then show ?case by (cases j) auto
qed

lemma writes_from_plan:
  "writes_from zoneID ex 0 ins @
     map (\<lambda>j. DELETE_record zoneID (ID (ex ! j))) [length ins..<length ex] =
   plan_for_key zoneID ex ins"
proof -
  have "writes_from zoneID ex 0 ins =
      map (\<lambda>i. PUT_record zoneID (ID (ex ! i)) (ins ! i)) [0..<min (length ins) (length ex)] @
      map (\<lambda>i. POST_record zoneID (ins ! i)) [length ex..<length ins]"
    by (rule nth_equalityI) (auto simp: nth_writes_from nth_append)
  then show ?thesis
    by (simp add: plan_for_key_def)
qed

lemma group_inputs_lookup:
  "group_inputs E zone records m key =
     (if desired_for E zone records key = [] then m key
      else Some ((case m key of None \<Rightarrow> [] | Some rs \<Rightarrow> rs) @ desired_for E zone records key))"
  by (induction records arbitrary: m) (auto simp: desired_for_def key_of_def Let_def)

lemma group_inputs_empty:
  "group_inputs E zone records Map.empty key =
     (if desired_for E zone records key = [] then None
      else Some (desired_for E zone records key))"
  by (simp add: group_inputs_lookup)

lemma bucket_group_inputs:
  "(case group_inputs E zone records Map.empty key of None \<Rightarrow> [] | Some rs \<Rightarrow> rs) =
     desired_for E zone records key"
  by (simp add: group_inputs_empty)

lemma dom_group_inputs:
  "dom (group_inputs E zone records Map.empty) =
     key_of ` libdnsToInternal E zone ` set records"
proof -
  have "(desired_for E zone records key \<noteq> []) =
      (key \<in> key_of ` libdnsToInternal E zone ` set records)" for key
    by (auto simp: desired_for_def filter_empty_conv image_iff)
  then show ?thesis
    by (auto simp: dom_def group_inputs_empty)
qed

lemma set_keys_run_plan:
  "set_keys E c zone zoneID existingRecords (group_inputs E zone records Map.empty) ks acc log =
     run_plan E c zone (set_plan E zone zoneID existingRecords records ks) acc log"
proof (induction ks arbitrary: acc log)
  case Nil
  then show ?case by (simp add: set_plan_def)
next
  case (Cons key ks)
  let ?ex = "existing_for key existingRecords"
  let ?ins = "desired_for E zone records key"
  have p: "set_plan E zone zoneID existingRecords records (key # ks) =
      writes_from zoneID ?ex 0 ?ins @
      map (\<lambda>j. DELETE_record zoneID (ID (?ex ! j))) [length ?ins..<length ?ex] @
      set_plan E zone zoneID existingRecords records ks"
    by (simp add: set_plan_def writes_from_plan [symmetric])
  show ?case
    unfolding p
    by (auto simp: bucket_group_inputs set_inputs_run_plan run_plan_append
        delete_extra_run_plan Cons.IH Let_def split: sum.splits option.splits prod.splits)
qed

lemma SetRecords_run_plan:
  "getZoneID E p zone log = (Inr zoneID, log1) \<Longrightarrow> newClient E p = Inr c \<Longrightarrow>
   http_records E c (log1 @ [GET_records zoneID []]) = Inr existingRecords \<Longrightarrow>
   SetRecords E p zone records order log =
     run_plan E c zone (set_plan E zone zoneID existingRecords records order) []
       (log1 @ [GET_records zoneID []])"
  by (simp add: SetRecords_def getRecords_def Let_def set_keys_run_plan)

lemma run_plan_success:
  "run_plan E c zone plan acc log = (Inr res, log') \<Longrightarrow>
   log' = log @ plan \<and> length res = length acc + length (filter is_write plan)"
proof (induction plan arbitrary: acc log)
  case Nil
  then show ?case by simp
next
  case (Cons x xs)
  then show ?case
    by (cases x) (fastforce split: sum.splits option.splits)+
qed

lemma run_plan_failure:
  "run_plan E c zone plan acc log = (Inl err, log') \<Longrightarrow>
   \<exists>n<length plan. log' = log @ take (Suc n) plan \<and>
     set_step E c zone (plan ! n) log' = Inl err \<and>
     (\<forall>m<n. \<exists>y. set_step E c zone (plan ! m) (log @ take (Suc m) plan) = Inr y)"
proof (induction plan arbitrary: acc log)
  case Nil
  then show ?case by simp
next
  case (Cons x xs)
  show ?case
  proof (cases "set_step E c zone x (log @ [x])")
    case (Inl e)
    with Cons.prems have "err = e" "log' = log @ [x]" by auto
    with Inl show ?thesis by (intro exI [of _ 0]) simp
  next
    case (Inr y)
    with Cons.prems obtain acc' where "run_plan E c zone xs acc' (log @ [x]) = (Inl err, log')"
      by (auto split: option.splits)
    from Cons.IH [OF this] obtain n where n: "n < length xs"
      "log' = (log @ [x]) @ take (Suc n) xs"
      "set_step E c zone (xs ! n) log' = Inl err"
      "\<forall>m<n. \<exists>y. set_step E c zone (xs ! m) ((log @ [x]) @ take (Suc m) xs) = Inr y"
      by blast
    have "\<forall>m<Suc n. \<exists>y. set_step E c zone ((x # xs) ! m) (log @ take (Suc m) (x # xs)) = Inr y"
    proof (intro allI impI)
      fix m assume "m < Suc n"
      then show "\<exists>y. set_step E c zone ((x # xs) ! m) (log @ take (Suc m) (x # xs)) = Inr y"
        using Inr n(4) by (cases m) auto
    qed
    with n show ?thesis
      by (intro exI [of _ "Suc n"]) simp
  qed
qed

lemma run_plan_prefix:
  "run_plan E c zone plan acc log = (res, log') \<Longrightarrow> \<exists>n\<le>length plan. log' = log @ take n plan"
proof (cases res)
  case (Inl e)
  assume "run_plan E c zone plan acc log = (res, log')"
  with Inl run_plan_failure [of E c zone plan acc log e log'] show ?thesis
    by (metis Suc_leI)
next
  case (Inr r)
  assume "run_plan E c zone plan acc log = (res, log')"
  with Inr run_plan_success [of E c zone plan acc log r log'] show ?thesis
    by (intro exI [of _ "length plan"]) simp
qed

section \<open>Counting results\<close>

lemma filter_is_write_plan:
  "length (filter is_write (plan_for_key zoneID ex ins)) = length ins"
proof -
  have "filter is_write (map (\<lambda>i. PUT_record zoneID (ID (ex ! i)) (ins ! i)) xs) =
      map (\<lambda>i. PUT_record zoneID (ID (ex ! i)) (ins ! i)) xs" for xs
    by (induction xs) auto
  moreover have "filter is_write (map (\<lambda>i. POST_record zoneID (ins ! i)) xs) =
      map (\<lambda>i. POST_record zoneID (ins ! i)) xs" for xs
    by (induction xs) auto
  moreover have "filter is_write (map (\<lambda>i. DELETE_record zoneID (ID (ex ! i))) xs) = []" for xs
    by (induction xs) auto
  ultimately show ?thesis
    by (simp add: plan_for_key_def)
qed

lemma sum_list_indicator:
  "distinct ks \<Longrightarrow> a \<in> set ks \<Longrightarrow> sum_list (map (\<lambda>k. if a = k then 1 else 0) ks) = (1::nat)"
proof (induction ks)
  case Nil
  then show ?case by simp
next
  case (Cons k ks)
  have "a \<notin> set ks \<Longrightarrow> sum_list (map (\<lambda>k. if a = k then 1 else 0) ks) = (0::nat)"
    by (induction ks) auto
  with Cons show ?case by auto
qed

lemma sum_list_buckets:
  "distinct ks \<Longrightarrow> f ` set rs \<subseteq> set ks \<Longrightarrow>
   sum_list (map (\<lambda>k. length (filter (\<lambda>r. f r = k) rs)) ks) = length rs"
proof (induction rs)
  case Nil
  then show ?case by simp
next
  case (Cons r rs)
  have "sum_list (map (\<lambda>k. length (filter (\<lambda>x. f x = k) (r # rs))) ks) =
      sum_list (map (\<lambda>k. (if f r = k then 1 else 0) + length (filter (\<lambda>x. f x = k) rs)) ks)"
    by (intro arg_cong [where f = sum_list] map_cong) auto
  also have "\<dots> = sum_list (map (\<lambda>k. if f r = k then 1 else 0) ks) +
      sum_list (map (\<lambda>k. length (filter (\<lambda>x. f x = k) rs)) ks)"
    by (simp add: sum_list_addf)
  also have "\<dots> = 1 + length rs"
    using Cons by (simp add: sum_list_indicator)
  finally show ?case by simp
qed

lemma writes_set_plan:
  assumes "range_order (group_inputs E zone records Map.empty) order"
  shows "length (filter is_write (set_plan E zone zoneID existingRecords records order)) =
     length records"
proof -
  from assms have d: "distinct order"
    and s: "key_of ` set (map (libdnsToInternal E zone) records) \<subseteq> set order"
    by (auto simp: range_order_def dom_group_inputs)
  have "length (filter is_write (set_plan E zone zoneID existingRecords records ks)) =
      sum_list (map (\<lambda>k. length (desired_for E zone records k)) ks)" for ks
    by (induction ks) (auto simp: set_plan_def filter_is_write_plan)
  then show ?thesis
    using sum_list_buckets [OF d s] by (simp add: desired_for_def)
qed

lemma append_loop_success:
  "append_loop E c zone zoneID records acc log = (Inr res, log') \<Longrightarrow>
   log' = log @ map (\<lambda>r. POST_record zoneID (libdnsToInternal E zone r)) records \<and>
   length res = length acc + length records"
proof (induction records arbitrary: acc log)
  case Nil
  then show ?case by simp
next
  case (Cons r rs)
  then show ?case
    by (fastforce simp: createRecord_def Let_def split: sum.splits)
qed

lemma AppendRecords_loop:
  "getZoneID E p zone log = (Inr zoneID, log1) \<Longrightarrow> newClient E p = Inr c \<Longrightarrow>
   AppendRecords E p zone records log = append_loop E c zone zoneID records [] log1"
  by (simp add: AppendRecords_def)

lemma AppendRecords_resolved:
  "AppendRecords E p zone records log = (Inr res, log') \<Longrightarrow>
   \<exists>zoneID log1 c. getZoneID E p zone log = (Inr zoneID, log1) \<and> newClient E p = Inr c"
  by (auto simp: AppendRecords_def split: prod.splits sum.splits)

lemma SetRecords_resolved:
  "SetRecords E p zone records order log = (Inr res, log') \<Longrightarrow>
   \<exists>zoneID log1 c existingRecords. getZoneID E p zone log = (Inr zoneID, log1) \<and>
     newClient E p = Inr c \<and>
     http_records E c (log1 @ [GET_records zoneID []]) = Inr existingRecords"
  by (auto simp: SetRecords_def getRecords_def Let_def split: prod.splits sum.splits)

section \<open>Results and first failures\<close>

lemma set_step_Some_write: "set_step E c zone x l = Inr (Some v) \<Longrightarrow> is_write x"
  by (cases x) (auto split: sum.splits option.splits)

lemma set_step_None_write: "set_step E c zone x l = Inr None \<Longrightarrow> \<not> is_write x"
  by (cases x) (auto split: sum.splits option.splits)

lemma run_plan_results:
  "run_plan E c zone plan acc log = (Inr res, log') \<Longrightarrow>
   \<exists>rest. res = acc @ rest \<and>
     (\<forall>n<length plan. \<exists>y. set_step E c zone (plan ! n) (log @ take (Suc n) plan) = Inr y) \<and>
     (\<forall>n<length plan. is_write (plan ! n) \<longrightarrow>
        set_step E c zone (plan ! n) (log @ take (Suc n) plan) =
          Inr (Some (rest ! length (filter is_write (take n plan)))))"
proof (induction plan arbitrary: acc log)
  case Nil
  then show ?case by simp
next
  case (Cons x xs)
  from Cons.prems obtain y where y: "set_step E c zone x (log @ [x]) = Inr y"
    by (cases "set_step E c zone x (log @ [x])") auto
  show ?case
  proof (cases y)
    case None
    with y have w: "\<not> is_write x" by (auto dest: set_step_None_write)
    from Cons.prems y None have "run_plan E c zone xs acc (log @ [x]) = (Inr res, log')"
      by simp
    from Cons.IH [OF this] obtain rest where r: "res = acc @ rest"
      "\<forall>n<length xs. \<exists>y. set_step E c zone (xs ! n) ((log @ [x]) @ take (Suc n) xs) = Inr y"
      "\<forall>n<length xs. is_write (xs ! n) \<longrightarrow>
        set_step E c zone (xs ! n) ((log @ [x]) @ take (Suc n) xs) =
          Inr (Some (rest ! length (filter is_write (take n xs))))"
      by blast
    have a: "\<exists>y. set_step E c zone ((x # xs) ! n) (log @ take (Suc n) (x # xs)) = Inr y"
      if "n < length (x # xs)" for n
      using that y r(2) by (cases n) auto
    have b: "set_step E c zone ((x # xs) ! n) (log @ take (Suc n) (x # xs)) =
          Inr (Some (rest ! length (filter is_write (take n (x # xs)))))"
      if "n < length (x # xs)" "is_write ((x # xs) ! n)" for n
      using that w r(3) by (cases n) auto
    from r(1) a b show ?thesis by blast
  next
    case (Some l)
    with y have w: "is_write x" by (auto dest: set_step_Some_write)
    from Cons.prems y Some have "run_plan E c zone xs (acc @ [l]) (log @ [x]) = (Inr res, log')"
      by simp
    from Cons.IH [OF this] obtain rest where r: "res = (acc @ [l]) @ rest"
      "\<forall>n<length xs. \<exists>y. set_step E c zone (xs ! n) ((log @ [x]) @ take (Suc n) xs) = Inr y"
      "\<forall>n<length xs. is_write (xs ! n) \<longrightarrow>
        set_step E c zone (xs ! n) ((log @ [x]) @ take (Suc n) xs) =
          Inr (Some (rest ! length (filter is_write (take n xs))))"
      by blast
    have a: "\<exists>y. set_step E c zone ((x # xs) ! n) (log @ take (Suc n) (x # xs)) = Inr y"
      if "n < length (x # xs)" for n
      using that y r(2) by (cases n) auto
    have b: "set_step E c zone ((x # xs) ! n) (log @ take (Suc n) (x # xs)) =
          Inr (Some ((l # rest) ! length (filter is_write (take n (x # xs)))))"
      if "n < length (x # xs)" "is_write ((x # xs) ! n)" for n
      using that w y Some r(3) by (cases n) auto
    from r(1) have "res = acc @ l # rest" by simp
    with a b show ?thesis by blast
  qed
qed

lemma run_plan_first_failure:
  "n < length plan \<Longrightarrow>
   \<forall>m<n. \<exists>y. set_step E c zone (plan ! m) (log @ take (Suc m) plan) = Inr y \<Longrightarrow>
   set_step E c zone (plan ! n) (log @ take (Suc n) plan) = Inl err \<Longrightarrow>
   run_plan E c zone plan acc log = (Inl err, log @ take (Suc n) plan)"
proof (induction plan arbitrary: n acc log)
  case Nil
  then show ?case by simp
next
  case (Cons x xs)
  show ?case
  proof (cases n)
    case 0
    with Cons.prems show ?thesis by simp
  next
    case (Suc k)
    with Cons.prems(2) obtain y where y: "set_step E c zone x (log @ [x]) = Inr y"
      by fastforce
    have k: "k < length xs" using Cons.prems(1) Suc by simp
    have ok: "\<forall>m<k. \<exists>y. set_step E c zone (xs ! m) ((log @ [x]) @ take (Suc m) xs) = Inr y"
    proof (intro allI impI)
      fix m assume "m < k"
      then have "Suc m < n" using Suc by simp
      with Cons.prems(2) show "\<exists>y. set_step E c zone (xs ! m) ((log @ [x]) @ take (Suc m) xs) = Inr y"
        by fastforce
    qed
    have f: "set_step E c zone (xs ! k) ((log @ [x]) @ take (Suc k) xs) = Inl err"
      using Cons.prems(3) Suc by simp
    have "run_plan E c zone xs acc' (log @ [x]) = (Inl err, (log @ [x]) @ take (Suc k) xs)"
      for acc'
      by (rule Cons.IH [OF k ok f])
    with y Suc show ?thesis
      by (cases y) simp_all
  qed
qed

lemma append_loop_results:
  "append_loop E c zone zoneID records acc log = (Inr res, log') \<Longrightarrow>
   \<exists>rest. res = acc @ rest \<and> length rest = length records \<and>
     (\<forall>i<length records. \<exists>created.
        http_record E c
          (log @ map (\<lambda>r. POST_record zoneID (libdnsToInternal E zone r)) (take (Suc i) records)) =
          Inr created \<and>
        internalToLibdns E zone created = Inr (rest ! i))"
proof (induction records arbitrary: acc log)
  case Nil
  then show ?case by simp
next
  case (Cons r rs)
  let ?l = "log @ [POST_record zoneID (libdnsToInternal E zone r)]"
  from Cons.prems obtain created l where s: "http_record E c ?l = Inr created"
    "internalToLibdns E zone created = Inr l"
    "append_loop E c zone zoneID rs (acc @ [l]) ?l = (Inr res, log')"
    by (auto simp: createRecord_def Let_def split: sum.splits)
  from Cons.IH [OF s(3)] obtain rest where r: "res = (acc @ [l]) @ rest"
    "length rest = length rs"
    "\<forall>i<length rs. \<exists>created.
        http_record E c
          (?l @ map (\<lambda>r. POST_record zoneID (libdnsToInternal E zone r)) (take (Suc i) rs)) =
          Inr created \<and>
        internalToLibdns E zone created = Inr (rest ! i)"
    by blast
  have a: "\<exists>created.
        http_record E c
          (log @ map (\<lambda>r. POST_record zoneID (libdnsToInternal E zone r))
                   (take (Suc i) (r # rs))) = Inr created \<and>
        internalToLibdns E zone created = Inr ((l # rest) ! i)"
    if "i < length (r # rs)" for i
    using that s(1,2) r(3) by (cases i) auto
  from r(1,2) have "res = acc @ l # rest" "length (l # rest) = length (r # rs)" by simp_all
  with a show ?case by blast
qed

lemma append_loop_first_failure:
  "n < length records \<Longrightarrow>
   \<forall>m<n. \<exists>created l.
     http_record E c
       (log @ map (\<lambda>r. POST_record zoneID (libdnsToInternal E zone r)) (take (Suc m) records)) =
       Inr created \<and>
     internalToLibdns E zone created = Inr l \<Longrightarrow>
   (\<exists>e. http_record E c
           (log @ map (\<lambda>r. POST_record zoneID (libdnsToInternal E zone r))
                    (take (Suc n) records)) = Inl e \<and>
        err = Wrap ''failed to create record'' e) \<or>
   (\<exists>created e.
      http_record E c
        (log @ map (\<lambda>r. POST_record zoneID (libdnsToInternal E zone r))
                 (take (Suc n) records)) = Inr created \<and>
      internalToLibdns E zone created = Inl e \<and>
      err = Wrap ''failed to convert created record'' e) \<Longrightarrow>
   append_loop E c zone zoneID records acc log =
     (Inl err,
      log @ map (\<lambda>r. POST_record zoneID (libdnsToInternal E zone r)) (take (Suc n) records))"
proof (induction records arbitrary: n acc log)
  case Nil
  then show ?case by simp
next
  case (Cons r rs)
  let ?l = "log @ [POST_record zoneID (libdnsToInternal E zone r)]"
  show ?case
  proof (cases n)
    case 0
    with Cons.prems(3) show ?thesis
      by (auto simp: createRecord_def Let_def)
  next
    case (Suc k)
    with Cons.prems(2) obtain created l where s: "http_record E c ?l = Inr created"
      "internalToLibdns E zone created = Inr l"
      by fastforce
    have k: "k < length rs" using Cons.prems(1) Suc by simp
    have ok: "\<forall>m<k. \<exists>created l.
       http_record E c
         (?l @ map (\<lambda>r. POST_record zoneID (libdnsToInternal E zone r)) (take (Suc m) rs)) =
         Inr created \<and>
       internalToLibdns E zone created = Inr l"
    proof (intro allI impI)
      fix m assume "m < k"
      then have "Suc m < n" using Suc by simp
      with Cons.prems(2) show "\<exists>created l.
       http_record E c
         (?l @ map (\<lambda>r. POST_record zoneID (libdnsToInternal E zone r)) (take (Suc m) rs)) =
         Inr created \<and>
       internalToLibdns E zone created = Inr l"
        by fastforce
    qed
    have f: "(\<exists>e. http_record E c
           (?l @ map (\<lambda>r. POST_record zoneID (libdnsToInternal E zone r))
                    (take (Suc k) rs)) = Inl e \<and>
        err = Wrap ''failed to create record'' e) \<or>
      (\<exists>created e.
        http_record E c
          (?l @ map (\<lambda>r. POST_record zoneID (libdnsToInternal E zone r))
                 (take (Suc k) rs)) = Inr created \<and>
        internalToLibdns E zone created = Inl e \<and>
        err = Wrap ''failed to convert created record'' e)"
      using Cons.prems(3) Suc by simp
    have "append_loop E c zone zoneID rs (acc @ [l]) ?l =
       (Inl err,
        ?l @ map (\<lambda>r. POST_record zoneID (libdnsToInternal E zone r)) (take (Suc k) rs))"
      by (rule Cons.IH [OF k ok f])
    with s Suc show ?thesis
      by (simp add: createRecord_def Let_def)
  qed
qed

lemma append_loop_failure_first:
  "append_loop E c zone zoneID records acc log = (Inl err, log') \<Longrightarrow>
   \<exists>n<length records.
     log' = log @ map (\<lambda>r. POST_record zoneID (libdnsToInternal E zone r)) (take (Suc n) records) \<and>
     ((\<exists>e. http_record E c log' = Inl e \<and> err = Wrap ''failed to create record'' e) \<or>
      (\<exists>created e. http_record E c log' = Inr created \<and>
         internalToLibdns E zone created = Inl e \<and>
         err = Wrap ''failed to convert created record'' e)) \<and>
     (\<forall>m<n. \<exists>created l.
        http_record E c
          (log @ map (\<lambda>r. POST_record zoneID (libdnsToInternal E zone r)) (take (Suc m) records)) =
          Inr created \<and>
        internalToLibdns E zone created = Inr l)"
proof (induction records arbitrary: acc log)
  case Nil
  then show ?case by simp
next
  case (Cons r rs)
  let ?l = "log @ [POST_record zoneID (libdnsToInternal E zone r)]"
  show ?case
  proof (cases "http_record E c ?l")
    case (Inl e)
    with Cons.prems show ?thesis
      by (intro exI [of _ 0]) (auto simp: createRecord_def Let_def)
  next
    case (Inr created)
    show ?thesis
    proof (cases "internalToLibdns E zone created")
      case (Inl e)
      with Inr Cons.prems show ?thesis
        by (intro exI [of _ 0]) (auto simp: createRecord_def Let_def)
    next
      case r2: (Inr l)
      with Inr Cons.prems have "append_loop E c zone zoneID rs (acc @ [l]) ?l = (Inl err, log')"
        by (simp add: createRecord_def Let_def)
      from Cons.IH [OF this] obtain n where n: "n < length rs"
        "log' = ?l @ map (\<lambda>r. POST_record zoneID (libdnsToInternal E zone r)) (take (Suc n) rs)"
        "(\<exists>e. http_record E c log' = Inl e \<and> err = Wrap ''failed to create record'' e) \<or>
         (\<exists>created e. http_record E c log' = Inr created \<and>
           internalToLibdns E zone created = Inl e \<and>
           err = Wrap ''failed to convert created record'' e)"
        "\<forall>m<n. \<exists>created l.
          http_record E c
            (?l @ map (\<lambda>r. POST_record zoneID (libdnsToInternal E zone r)) (take (Suc m) rs)) =
            Inr created \<and>
          internalToLibdns E zone created = Inr l"
        by blast
      have ok: "\<exists>created l.
          http_record E c
            (log @ map (\<lambda>r. POST_record zoneID (libdnsToInternal E zone r))
                     (take (Suc m) (r # rs))) = Inr created \<and>
          internalToLibdns E zone created = Inr l"
        if "m < Suc n" for m
        using that Inr r2 n(4) by (cases m) auto
      from n(1-3) ok show ?thesis
        by (intro exI [of _ "Suc n"]) simp
    qed
  qed
qed

section \<open>Runs against the test server\<close>

lemma toInternal_www:
  "libdnsToInternal (test_env zs rs) ''example.com'' www_input =
     a_record 0 ''www'' ''192.0.2.100'' 7200"
  by (simp add: libdnsToInternal_def Let_def test_env_def www_input_def a_record_def
      apex_name_def split_priority_def TrimSuffix_def HasSuffix_def CutSuffix_def)

lemma toInternal_reject:
  "libdnsToInternal (test_env zs rs) ''example.com'' www_reject =
     a_record 0 ''www'' ''reject'' 7200"
  by (simp add: libdnsToInternal_def Let_def test_env_def www_reject_def a_record_def
      apex_name_def split_priority_def TrimSuffix_def HasSuffix_def CutSuffix_def)

lemma toInternal_mail:
  "libdnsToInternal (test_env zs rs) ''example.com'' (mail_input d) =
     a_record 0 ''mail'' d 300"
  by (simp add: libdnsToInternal_def Let_def test_env_def mail_input_def a_record_def
      apex_name_def split_priority_def TrimSuffix_def HasSuffix_def CutSuffix_def)

lemma toLibdns_www:
  "internalToLibdns (test_env zs rs) ''example.com'' (a_record i ''www'' d 7200) =
     Inr (a_rr ''www.example.com.'' d 7200000000000)"
  by (simp add: internalToLibdns_def internalToLibdns_rr_def test_env_def a_record_def a_rr_def
      fqdn_name_def TrimSuffix_def HasSuffix_def wrap64_def)


lemma toLibdns_mail:
  "internalToLibdns (test_env zs rs) ''example.com'' (a_record i ''mail'' d 300) =
     Inr (a_rr ''mail.example.com.'' d 300000000000)"
  by (simp add: internalToLibdns_def internalToLibdns_rr_def test_env_def a_record_def a_rr_def
      fqdn_name_def TrimSuffix_def HasSuffix_def wrap64_def)

lemma test_records_a:
  "test_records = [a_record 1 ''www'' ''192.0.2.1'' 3600,
     \<lparr>ID = 2, Name = ''odd'', Type = ''BAD'', Content = ''x'', TTL = 3600, Priority = 0\<rparr>,
     a_record 3 ''www'' ''192.0.2.2'' 3600, a_record 4 ''mail'' ''192.0.2.3'' 3600]"
  by (simp add: test_records_def a_record_def)

lemma existing_www:
  "existing_for (''www'', ''A'') test_records =
     [a_record 1 ''www'' ''192.0.2.1'' 3600, a_record 3 ''www'' ''192.0.2.2'' 3600]"
  by (simp add: existing_for_def test_records_def a_record_def)

lemma existing_mail:
  "existing_for (''mail'', ''A'') test_records = [a_record 4 ''mail'' ''192.0.2.3'' 3600]"
  by (simp add: existing_for_def test_records_def a_record_def)

lemma key_of_a [simp]: "key_of (a_record i n d t) = (n, ''A'')"
  by (simp add: key_of_def a_record_def)

lemma ID_a [simp]: "ID (a_record i n d t) = i"
  by (simp add: a_record_def)

lemma http_delete_test [simp]: "http_delete (test_env zs rs) c log = None"
  by (simp add: test_env_def)

lemma plan_one_two:
  "plan_for_key z [e1, e2] [d1] = [PUT_record z (ID e1) d1, DELETE_record z (ID e2)]"
  by (simp add: plan_for_key_def upt_rec)

lemma plan_three_one:
  "plan_for_key z [e1] [d1, d2, d3] =
     [PUT_record z (ID e1) d1, POST_record z d2, POST_record z d3]"
  by (simp add: plan_for_key_def upt_rec)

lemma plan_three_two:
  "plan_for_key z [e1, e2] [d1, d2, d3] =
     [PUT_record z (ID e1) d1, PUT_record z (ID e2) d2, POST_record z d3]"
  by (simp add: plan_for_key_def upt_rec)

lemma SetRecords_test:
  "SetRecords (test_env test_zones test_records) test_provider ''example.com'' records order [] =
     run_plan (test_env test_zones test_records)
       \<lparr>token = ''test-token'', BaseURL = ''http://127.0.0.1''\<rparr> ''example.com''
       (set_plan (test_env test_zones test_records) ''example.com'' 1 test_records records order)
       [] [GET_zones, GET_records 1 []]"
  using SetRecords_run_plan [where E = "test_env test_zones test_records" and p = test_provider
      and zone = "''example.com''" and log = "[]" and zoneID = 1 and ?log1.0 = "[GET_zones]"
      and existingRecords = test_records and records = records and order = order]
  by (simp add: getZoneID_test)

lemma range_order_www:
  "range_order (group_inputs (test_env zs rs) ''example.com'' [www_input] Map.empty)
     [(''www'', ''A'')]"
  unfolding range_order_def dom_group_inputs by (simp add: toInternal_www)

lemma range_order_www3:
  "range_order (group_inputs (test_env zs rs) ''example.com''
     [www_input, www_reject, www_input] Map.empty) [(''www'', ''A'')]"
  unfolding range_order_def dom_group_inputs by (simp add: toInternal_www toInternal_reject)

lemma range_order_mail3:
  "range_order (group_inputs (test_env zs rs) ''example.com''
     [mail_input ''192.0.2.7'', mail_input ''192.0.2.8'', mail_input ''192.0.2.9''] Map.empty)
     [(''mail'', ''A'')]"
  unfolding range_order_def dom_group_inputs by (simp add: toInternal_mail)

lemma http_record_test:
  "http_record (test_env zs rs) c log =
     (case last log of
        POST_record z r \<Rightarrow>
          if Content r = ''reject'' then Inl (External ''400'')
          else Inr (r\<lparr>ID := 100 + int (length log)\<rparr>)
      | PUT_record z i r \<Rightarrow>
          if Content r = ''reject'' then Inl (External ''400'') else Inr (r\<lparr>ID := i\<rparr>)
      | _ \<Rightarrow> Inl (External ''405''))"
  by (simp add: test_env_def)

lemma a_record_fields [simp]:
  "Content (a_record i n d t) = d"
  "(a_record i n d t)\<lparr>ID := j\<rparr> = a_record j n d t"
  by (simp_all add: a_record_def)

lemma SetRecords_one_two:
  "SetRecords (test_env test_zones test_records) test_provider ''example.com'' [www_input]
     [(''www'', ''A'')] [] =
   (Inr [a_rr ''www.example.com.'' ''192.0.2.100'' 7200000000000],
    [GET_zones, GET_records 1 [],
     PUT_record 1 1 (a_record 0 ''www'' ''192.0.2.100'' 7200), DELETE_record 1 3])"
proof -
  have p: "set_plan (test_env test_zones test_records) ''example.com'' 1 test_records
      [www_input] [(''www'', ''A'')] =
      [PUT_record 1 1 (a_record 0 ''www'' ''192.0.2.100'' 7200), DELETE_record 1 3]"
    by (simp add: set_plan_def desired_for_def toInternal_www existing_www plan_one_two)
  show ?thesis
    by (simp add: SetRecords_test p http_record_test toLibdns_www)
qed

lemma SetRecords_three_one:
  "SetRecords (test_env test_zones test_records) test_provider ''example.com''
     [mail_input ''192.0.2.7'', mail_input ''192.0.2.8'', mail_input ''192.0.2.9'']
     [(''mail'', ''A'')] [] =
   (Inr [a_rr ''mail.example.com.'' ''192.0.2.7'' 300000000000,
         a_rr ''mail.example.com.'' ''192.0.2.8'' 300000000000,
         a_rr ''mail.example.com.'' ''192.0.2.9'' 300000000000],
    [GET_zones, GET_records 1 [],
     PUT_record 1 4 (a_record 0 ''mail'' ''192.0.2.7'' 300),
     POST_record 1 (a_record 0 ''mail'' ''192.0.2.8'' 300),
     POST_record 1 (a_record 0 ''mail'' ''192.0.2.9'' 300)])"
proof -
  have p: "set_plan (test_env test_zones test_records) ''example.com'' 1 test_records
      [mail_input ''192.0.2.7'', mail_input ''192.0.2.8'', mail_input ''192.0.2.9'']
      [(''mail'', ''A'')] =
      [PUT_record 1 4 (a_record 0 ''mail'' ''192.0.2.7'' 300),
       POST_record 1 (a_record 0 ''mail'' ''192.0.2.8'' 300),
       POST_record 1 (a_record 0 ''mail'' ''192.0.2.9'' 300)]"
    by (simp add: set_plan_def desired_for_def toInternal_mail existing_mail plan_three_one)
  show ?thesis
    by (simp add: SetRecords_test p http_record_test toLibdns_mail)
qed

lemma SetRecords_rejected:
  "SetRecords (test_env test_zones test_records) test_provider ''example.com''
     [www_input, www_reject, www_input] [(''www'', ''A'')] [] =
   (Inl (WrapID ''failed to update record'' 3 (External ''400'')),
    [GET_zones, GET_records 1 [],
     PUT_record 1 1 (a_record 0 ''www'' ''192.0.2.100'' 7200),
     PUT_record 1 3 (a_record 0 ''www'' ''reject'' 7200)])"
proof -
  have p: "set_plan (test_env test_zones test_records) ''example.com'' 1 test_records
      [www_input, www_reject, www_input] [(''www'', ''A'')] =
      [PUT_record 1 1 (a_record 0 ''www'' ''192.0.2.100'' 7200),
       PUT_record 1 3 (a_record 0 ''www'' ''reject'' 7200),
       POST_record 1 (a_record 0 ''www'' ''192.0.2.100'' 7200)]"
    by (simp add: set_plan_def desired_for_def toInternal_www toInternal_reject existing_www
        plan_three_two)
  show ?thesis
    by (simp add: SetRecords_test p http_record_test toLibdns_www)
qed

lemma AppendRecords_test:
  "AppendRecords (test_env test_zones test_records) test_provider ''example.com'' records [] =
     append_loop (test_env test_zones test_records)
       \<lparr>token = ''test-token'', BaseURL = ''http://127.0.0.1''\<rparr> ''example.com'' 1 records []
       [GET_zones]"
  by (simp add: AppendRecords_def getZoneID_test)

lemma AppendRecords_two:
  "AppendRecords (test_env test_zones test_records) test_provider ''example.com''
     [www_input, mail_input ''192.0.2.7''] [] =
   (Inr [a_rr ''www.example.com.'' ''192.0.2.100'' 7200000000000,
         a_rr ''mail.example.com.'' ''192.0.2.7'' 300000000000],
    [GET_zones, POST_record 1 (a_record 0 ''www'' ''192.0.2.100'' 7200),
     POST_record 1 (a_record 0 ''mail'' ''192.0.2.7'' 300)])"
  by (simp add: AppendRecords_test createRecord_def Let_def toInternal_www toInternal_mail
      http_record_test toLibdns_www toLibdns_mail)

lemma AppendRecords_rejected:
  "AppendRecords (test_env test_zones test_records) test_provider ''example.com''
     [www_input, www_reject, www_input] [] =
   (Inl (Wrap ''failed to create record'' (External ''400'')),
    [GET_zones, POST_record 1 (a_record 0 ''www'' ''192.0.2.100'' 7200),
     POST_record 1 (a_record 0 ''www'' ''reject'' 7200)])"
  by (simp add: AppendRecords_test createRecord_def Let_def toInternal_www toInternal_reject
      http_record_test toLibdns_www)

section \<open>What SetRecords does for each key\<close>

lemma distinct_singleton_set: "distinct xs \<Longrightarrow> set xs = {k} \<Longrightarrow> xs = [k]"
proof (cases xs)
  case Nil
  assume "set xs = {k}"
  with Nil show ?thesis by simp
next
  case (Cons a as)
  assume "distinct xs" "set xs = {k}"
  with Cons have "a = k" "set as \<subseteq> {k}" "k \<notin> set as" by auto
  then have "as = []" by (cases as) auto
  with Cons \<open>a = k\<close> show ?thesis by simp
qed

text \<open>
  C1. In a run of \<open>SetRecords\<close> that succeeds, \<open>order\<close> visits every key of the input
  exactly once, and the calls made after the zone lookup and the listing are, key by key in
  that order, the plan of the key: with the input bucket of the key as desired records (in
  input order) and the listed records of the key as existing ones (in listed order), an
  update with the id of the existing record at every index both have, then a create at
  every further index of the desired records, then a delete at every further index of the
  existing ones. In particular one input record against two existing records of its key
  gives an update with the first id and a delete of the second and one returned record;
  three input records of one key against one existing record give one update and two
  creates, no delete, and three returned records.
\<close>

theorem SetRecords_plan:
  assumes "getZoneID E p zone log = (Inr zoneID, log1)"
    and "newClient E p = Inr c"
    and "http_records E c (log1 @ [GET_records zoneID []]) = Inr existingRecords"
    and "range_order (group_inputs E zone records Map.empty) order"
    and "SetRecords E p zone records order log = (Inr res, log')"
  shows "distinct order \<and> set order = key_of ` libdnsToInternal E zone ` set records \<and>
    log' = log1 @ GET_records zoneID [] #
      concat (map (\<lambda>key. plan_for_key zoneID (existing_for key existingRecords)
                             (desired_for E zone records key)) order) \<and>
    (\<forall>r e1 e2. records = [r] \<and>
       existing_for (key_of (libdnsToInternal E zone r)) existingRecords = [e1, e2] \<longrightarrow>
       log' = log1 @ [GET_records zoneID [],
                      PUT_record zoneID (ID e1) (libdnsToInternal E zone r),
                      DELETE_record zoneID (ID e2)] \<and>
       length res = 1) \<and>
    (\<forall>r1 r2 r3 e1. records = [r1, r2, r3] \<and>
       key_of (libdnsToInternal E zone r2) = key_of (libdnsToInternal E zone r1) \<and>
       key_of (libdnsToInternal E zone r3) = key_of (libdnsToInternal E zone r1) \<and>
       existing_for (key_of (libdnsToInternal E zone r1)) existingRecords = [e1] \<longrightarrow>
       log' = log1 @ [GET_records zoneID [],
                      PUT_record zoneID (ID e1) (libdnsToInternal E zone r1),
                      POST_record zoneID (libdnsToInternal E zone r2),
                      POST_record zoneID (libdnsToInternal E zone r3)] \<and>
       length res = 3)"
proof -
  from assms(4) have d: "distinct order"
    and s: "set order = key_of ` libdnsToInternal E zone ` set records"
    by (simp_all add: range_order_def dom_group_inputs)
  from assms(5) have "run_plan E c zone (set_plan E zone zoneID existingRecords records order) []
       (log1 @ [GET_records zoneID []]) = (Inr res, log')"
    by (simp add: SetRecords_run_plan [OF assms(1-3)])
  from run_plan_success [OF this]
  have l: "log' = log1 @ GET_records zoneID [] #
      set_plan E zone zoneID existingRecords records order"
    and n: "length res = length records"
    using assms(4) by (simp_all add: writes_set_plan)
  have one: "log' = log1 @ [GET_records zoneID [],
                      PUT_record zoneID (ID e1) (libdnsToInternal E zone r),
                      DELETE_record zoneID (ID e2)] \<and> length res = 1"
    if "records = [r] \<and>
       existing_for (key_of (libdnsToInternal E zone r)) existingRecords = [e1, e2]"
    for r e1 e2
  proof -
    from that d s have "order = [key_of (libdnsToInternal E zone r)]"
      by (intro distinct_singleton_set) simp_all
    with that l n show ?thesis
      by (simp add: set_plan_def desired_for_def plan_one_two)
  qed
  have three: "log' = log1 @ [GET_records zoneID [],
                      PUT_record zoneID (ID e1) (libdnsToInternal E zone r1),
                      POST_record zoneID (libdnsToInternal E zone r2),
                      POST_record zoneID (libdnsToInternal E zone r3)] \<and> length res = 3"
    if "records = [r1, r2, r3] \<and>
       key_of (libdnsToInternal E zone r2) = key_of (libdnsToInternal E zone r1) \<and>
       key_of (libdnsToInternal E zone r3) = key_of (libdnsToInternal E zone r1) \<and>
       existing_for (key_of (libdnsToInternal E zone r1)) existingRecords = [e1]"
    for r1 r2 r3 e1
  proof -
    from that d s have "order = [key_of (libdnsToInternal E zone r1)]"
      by (intro distinct_singleton_set) simp_all
    with that l n show ?thesis
      by (simp add: set_plan_def desired_for_def plan_three_one)
  qed
  from d s l one three show ?thesis
    unfolding set_plan_def by blast
qed

theorem SetRecords_plan_witness:
  "SetRecords (test_env test_zones test_records) test_provider ''example.com'' [www_input]
     [(''www'', ''A'')] [] =
   (Inr [a_rr ''www.example.com.'' ''192.0.2.100'' 7200000000000],
    [GET_zones] @ [GET_records 1 [],
     PUT_record 1 (ID (a_record 1 ''www'' ''192.0.2.1'' 3600))
       (libdnsToInternal (test_env test_zones test_records) ''example.com'' www_input),
     DELETE_record 1 (ID (a_record 3 ''www'' ''192.0.2.2'' 3600))]) \<and>
   SetRecords (test_env test_zones test_records) test_provider ''example.com''
     [mail_input ''192.0.2.7'', mail_input ''192.0.2.8'', mail_input ''192.0.2.9'']
     [(''mail'', ''A'')] [] =
   (Inr [a_rr ''mail.example.com.'' ''192.0.2.7'' 300000000000,
         a_rr ''mail.example.com.'' ''192.0.2.8'' 300000000000,
         a_rr ''mail.example.com.'' ''192.0.2.9'' 300000000000],
    [GET_zones] @ [GET_records 1 [],
     PUT_record 1 (ID (a_record 4 ''mail'' ''192.0.2.3'' 3600))
       (libdnsToInternal (test_env test_zones test_records) ''example.com''
          (mail_input ''192.0.2.7'')),
     POST_record 1 (libdnsToInternal (test_env test_zones test_records) ''example.com''
          (mail_input ''192.0.2.8'')),
     POST_record 1 (libdnsToInternal (test_env test_zones test_records) ''example.com''
          (mail_input ''192.0.2.9''))])"
proof -
  let ?E = "test_env test_zones test_records"
  have z: "getZoneID ?E test_provider ''example.com'' [] = (Inr 1, [GET_zones])"
    by (rule getZoneID_test)
  have c: "newClient ?E test_provider =
      Inr \<lparr>token = ''test-token'', BaseURL = ''http://127.0.0.1''\<rparr>"
    by simp
  have r: "http_records ?E \<lparr>token = ''test-token'', BaseURL = ''http://127.0.0.1''\<rparr>
      ([GET_zones] @ [GET_records 1 []]) = Inr test_records"
    by simp
  have e2: "[www_input] = [www_input] \<and>
      existing_for (key_of (libdnsToInternal ?E ''example.com'' www_input)) test_records =
        [a_record 1 ''www'' ''192.0.2.1'' 3600, a_record 3 ''www'' ''192.0.2.2'' 3600]"
    by (simp add: toInternal_www existing_www)
  have e1: "[mail_input ''192.0.2.7'', mail_input ''192.0.2.8'', mail_input ''192.0.2.9''] =
        [mail_input ''192.0.2.7'', mail_input ''192.0.2.8'', mail_input ''192.0.2.9''] \<and>
      key_of (libdnsToInternal ?E ''example.com'' (mail_input ''192.0.2.8'')) =
        key_of (libdnsToInternal ?E ''example.com'' (mail_input ''192.0.2.7'')) \<and>
      key_of (libdnsToInternal ?E ''example.com'' (mail_input ''192.0.2.9'')) =
        key_of (libdnsToInternal ?E ''example.com'' (mail_input ''192.0.2.7'')) \<and>
      existing_for (key_of (libdnsToInternal ?E ''example.com'' (mail_input ''192.0.2.7'')))
        test_records = [a_record 4 ''mail'' ''192.0.2.3'' 3600]"
    by (simp add: toInternal_mail existing_mail)
  from SetRecords_plan [OF z c r range_order_www SetRecords_one_two]
  have "[GET_zones, GET_records 1 [],
      PUT_record 1 1 (a_record 0 ''www'' ''192.0.2.100'' 7200), DELETE_record 1 3] =
    [GET_zones] @ [GET_records 1 [],
     PUT_record 1 (ID (a_record 1 ''www'' ''192.0.2.1'' 3600))
       (libdnsToInternal ?E ''example.com'' www_input),
     DELETE_record 1 (ID (a_record 3 ''www'' ''192.0.2.2'' 3600))]"
    using e2 by blast
  moreover from SetRecords_plan [OF z c r range_order_mail3 SetRecords_three_one]
  have "[GET_zones, GET_records 1 [],
     PUT_record 1 4 (a_record 0 ''mail'' ''192.0.2.7'' 300),
     POST_record 1 (a_record 0 ''mail'' ''192.0.2.8'' 300),
     POST_record 1 (a_record 0 ''mail'' ''192.0.2.9'' 300)] =
    [GET_zones] @ [GET_records 1 [],
     PUT_record 1 (ID (a_record 4 ''mail'' ''192.0.2.3'' 3600))
       (libdnsToInternal ?E ''example.com'' (mail_input ''192.0.2.7'')),
     POST_record 1 (libdnsToInternal ?E ''example.com'' (mail_input ''192.0.2.8'')),
     POST_record 1 (libdnsToInternal ?E ''example.com'' (mail_input ''192.0.2.9''))]"
    using e1 by blast
  ultimately show ?thesis
    using SetRecords_one_two SetRecords_three_one by simp
qed

section \<open>One result for each input record\<close>

lemma getZoneID_log:
  "getZoneID E p zone log = (Inr zoneID, log1) \<Longrightarrow> log1 = log @ [GET_zones]"
  by (auto simp: getZoneID_def getZones_def Let_def split: sum.splits option.splits)

lemma filter_is_write_posts:
  "filter is_write (map (\<lambda>r. POST_record zoneID (f r)) records) =
     map (\<lambda>r. POST_record zoneID (f r)) records"
  by (induction records) auto

lemma map_filter_append:
  "List.map_filter f (xs @ ys) = List.map_filter f xs @ List.map_filter f ys"
  by (simp add: List.map_filter_def)

lemma written_writes_from: "List.map_filter written (writes_from zoneID ex i ins) = ins"
  by (induction ins arbitrary: i) (simp_all add: List.map_filter_simps)

lemma written_deletes:
  "List.map_filter written (map (\<lambda>j. DELETE_record zoneID (f j)) xs) = []"
  by (induction xs) (simp_all add: List.map_filter_simps)

lemma written_plan_for_key: "List.map_filter written (plan_for_key zoneID ex ins) = ins"
  by (simp add: writes_from_plan [symmetric] map_filter_append written_writes_from
      written_deletes)

lemma written_set_plan:
  "List.map_filter written (set_plan E zone zoneID existingRecords records ks) =
     concat (map (desired_for E zone records) ks)"
  by (induction ks) (simp_all add: set_plan_def List.map_filter_simps map_filter_append
      written_plan_for_key)

lemma count_list_filter:
  "count_list (filter P rs) x = (if P x then count_list rs x else 0)"
  by (induction rs) auto

lemma count_list_concat_buckets:
  "distinct ks \<Longrightarrow>
   count_list (concat (map (\<lambda>k. filter (\<lambda>r. f r = k) rs) ks)) x =
     (if f x \<in> set ks then count_list rs x else 0)"
  by (induction ks) (auto simp: count_list_filter)

lemma count_list_buckets:
  assumes "distinct ks" and "f ` set rs \<subseteq> set ks"
  shows "count_list (concat (map (\<lambda>k. filter (\<lambda>r. f r = k) rs) ks)) x = count_list rs x"
proof (cases "f x \<in> set ks")
  case True
  with assms(1) show ?thesis by (simp add: count_list_concat_buckets)
next
  case False
  with assms(2) have "x \<notin> set rs" by auto
  then have "count_list rs x = 0" by (simp add: count_list_0_iff)
  with False assms(1) show ?thesis by (simp add: count_list_concat_buckets)
qed

lemma written_inputs:
  assumes "range_order (group_inputs E zone records Map.empty) order"
  shows "count_list (List.map_filter written
            (set_plan E zone zoneID existingRecords records order)) r =
         count_list (map (libdnsToInternal E zone) records) r"
proof -
  from assms have d: "distinct order"
    and s: "key_of ` set (map (libdnsToInternal E zone) records) \<subseteq> set order"
    by (auto simp: range_order_def dom_group_inputs)
  have "concat (map (desired_for E zone records) order) =
      concat (map (\<lambda>k. filter (\<lambda>r. key_of r = k) (map (libdnsToInternal E zone) records)) order)"
    by (intro arg_cong [where f = concat] map_cong refl) (simp add: desired_for_def)
  with count_list_buckets [OF d s] show ?thesis
    by (simp add: written_set_plan)
qed

text \<open>
  C10. When \<open>AppendRecords\<close> succeeds, the returned list is as long as the input list; the
  run has made one create call for each input record, in input order, and the record at
  each index of the result is the translation of what the create call for the input record
  at that index returned. When \<open>SetRecords\<close> succeeds, the returned list is as long as the
  input list; the update and create calls of the plan send the input records in provider
  form, each as often as it occurs in the input, and the records of the result are, in
  order, the translations of what these calls returned.
\<close>

theorem one_result_per_input:
  "(AppendRecords E p zone records log = (Inr res, log') \<longrightarrow>
      length res = length records \<and>
      length (filter is_write log') = length (filter is_write log) + length records \<and>
      (\<exists>zoneID c.
         getZoneID E p zone log = (Inr zoneID, log @ [GET_zones]) \<and> newClient E p = Inr c \<and>
         log' = log @ GET_zones #
                  map (\<lambda>r. POST_record zoneID (libdnsToInternal E zone r)) records \<and>
         (\<forall>i<length records. \<exists>created.
            http_record E c
              (log @ GET_zones #
                 map (\<lambda>r. POST_record zoneID (libdnsToInternal E zone r))
                   (take (Suc i) records)) = Inr created \<and>
            internalToLibdns E zone created = Inr (res ! i)))) \<and>
   (range_order (group_inputs E zone records Map.empty) order \<and>
    SetRecords E p zone records order log = (Inr res, log') \<longrightarrow>
      length res = length records \<and>
      length (filter is_write log') = length (filter is_write log) + length records \<and>
      (\<exists>zoneID c existingRecords.
         getZoneID E p zone log = (Inr zoneID, log @ [GET_zones]) \<and> newClient E p = Inr c \<and>
         http_records E c (log @ [GET_zones, GET_records zoneID []]) = Inr existingRecords \<and>
         log' = log @ GET_zones # GET_records zoneID [] #
                  set_plan E zone zoneID existingRecords records order \<and>
         (\<forall>r. count_list (List.map_filter written
                             (set_plan E zone zoneID existingRecords records order)) r =
               count_list (map (libdnsToInternal E zone) records) r) \<and>
         (\<forall>n<length (set_plan E zone zoneID existingRecords records order).
            is_write (set_plan E zone zoneID existingRecords records order ! n) \<longrightarrow>
            set_step E c zone (set_plan E zone zoneID existingRecords records order ! n)
              (log @ GET_zones # GET_records zoneID [] #
                 take (Suc n) (set_plan E zone zoneID existingRecords records order)) =
            Inr (Some (res ! length (filter is_write
                 (take n (set_plan E zone zoneID existingRecords records order))))))))"
proof (intro conjI impI)
  assume a: "AppendRecords E p zone records log = (Inr res, log')"
  from AppendRecords_resolved [OF a] obtain zoneID log1 c
    where r: "getZoneID E p zone log = (Inr zoneID, log1)" "newClient E p = Inr c"
    by blast
  note l1 = getZoneID_log [OF r(1)]
  from a r have l: "append_loop E c zone zoneID records [] log1 = (Inr res, log')"
    by (simp add: AppendRecords_loop)
  from append_loop_success [OF l] l1
  show "length res = length records"
    and "length (filter is_write log') = length (filter is_write log) + length records"
    by (simp_all add: filter_is_write_posts)
  from append_loop_success [OF l] l1
  have lg: "log' = log @ GET_zones #
      map (\<lambda>r. POST_record zoneID (libdnsToInternal E zone r)) records"
    by simp
  from append_loop_results [OF l] l1
  have "\<forall>i<length records. \<exists>created.
            http_record E c
              (log @ GET_zones #
                 map (\<lambda>r. POST_record zoneID (libdnsToInternal E zone r))
                   (take (Suc i) records)) = Inr created \<and>
            internalToLibdns E zone created = Inr (res ! i)"
    by auto
  with r l1 lg show "\<exists>zoneID c.
         getZoneID E p zone log = (Inr zoneID, log @ [GET_zones]) \<and> newClient E p = Inr c \<and>
         log' = log @ GET_zones #
                  map (\<lambda>r. POST_record zoneID (libdnsToInternal E zone r)) records \<and>
         (\<forall>i<length records. \<exists>created.
            http_record E c
              (log @ GET_zones #
                 map (\<lambda>r. POST_record zoneID (libdnsToInternal E zone r))
                   (take (Suc i) records)) = Inr created \<and>
            internalToLibdns E zone created = Inr (res ! i))"
    by blast
next
  assume a: "range_order (group_inputs E zone records Map.empty) order \<and>
    SetRecords E p zone records order log = (Inr res, log')"
  then have s: "SetRecords E p zone records order log = (Inr res, log')"
    and ro: "range_order (group_inputs E zone records Map.empty) order"
    by simp_all
  from SetRecords_resolved [OF s] obtain zoneID log1 c existingRecords
    where r: "getZoneID E p zone log = (Inr zoneID, log1)" "newClient E p = Inr c"
      "http_records E c (log1 @ [GET_records zoneID []]) = Inr existingRecords"
    by blast
  note l1 = getZoneID_log [OF r(1)]
  let ?plan = "set_plan E zone zoneID existingRecords records order"
  from s have rp: "run_plan E c zone ?plan [] (log1 @ [GET_records zoneID []]) = (Inr res, log')"
    by (simp add: SetRecords_run_plan [OF r])
  from run_plan_success [OF rp] ro l1
  show "length res = length records"
    and "length (filter is_write log') = length (filter is_write log) + length records"
    by (simp_all add: writes_set_plan)
  from run_plan_success [OF rp] l1
  have lg: "log' = log @ GET_zones # GET_records zoneID [] # ?plan"
    by simp
  from run_plan_results [OF rp] l1
  have st: "\<forall>n<length ?plan. is_write (?plan ! n) \<longrightarrow>
            set_step E c zone (?plan ! n)
              (log @ GET_zones # GET_records zoneID [] # take (Suc n) ?plan) =
            Inr (Some (res ! length (filter is_write (take n ?plan))))"
    by auto
  from r l1 have h: "getZoneID E p zone log = (Inr zoneID, log @ [GET_zones])"
    "http_records E c (log @ [GET_zones, GET_records zoneID []]) = Inr existingRecords"
    by simp_all
  from h r(2) lg st written_inputs [OF ro]
  show "\<exists>zoneID c existingRecords.
         getZoneID E p zone log = (Inr zoneID, log @ [GET_zones]) \<and> newClient E p = Inr c \<and>
         http_records E c (log @ [GET_zones, GET_records zoneID []]) = Inr existingRecords \<and>
         log' = log @ GET_zones # GET_records zoneID [] #
                  set_plan E zone zoneID existingRecords records order \<and>
         (\<forall>r. count_list (List.map_filter written
                             (set_plan E zone zoneID existingRecords records order)) r =
               count_list (map (libdnsToInternal E zone) records) r) \<and>
         (\<forall>n<length (set_plan E zone zoneID existingRecords records order).
            is_write (set_plan E zone zoneID existingRecords records order ! n) \<longrightarrow>
            set_step E c zone (set_plan E zone zoneID existingRecords records order ! n)
              (log @ GET_zones # GET_records zoneID [] #
                 take (Suc n) (set_plan E zone zoneID existingRecords records order)) =
            Inr (Some (res ! length (filter is_write
                 (take n (set_plan E zone zoneID existingRecords records order))))))"
    by blast
qed

theorem one_result_per_input_witness:
  "(\<exists>res log'. AppendRecords (test_env test_zones test_records) test_provider ''example.com''
       [www_input, mail_input ''192.0.2.7''] [] = (Inr res, log') \<and> length res = 2 \<and>
       (\<exists>created. http_record (test_env test_zones test_records)
            \<lparr>token = ''test-token'', BaseURL = ''http://127.0.0.1''\<rparr>
            [GET_zones, POST_record 1 (a_record 0 ''www'' ''192.0.2.100'' 7200)] = Inr created \<and>
          internalToLibdns (test_env test_zones test_records) ''example.com'' created =
            Inr (res ! 0))) \<and>
   range_order (group_inputs (test_env test_zones test_records) ''example.com''
     [mail_input ''192.0.2.7'', mail_input ''192.0.2.8'', mail_input ''192.0.2.9''] Map.empty)
     [(''mail'', ''A'')] \<and>
   (\<exists>res log'. SetRecords (test_env test_zones test_records) test_provider ''example.com''
       [mail_input ''192.0.2.7'', mail_input ''192.0.2.8'', mail_input ''192.0.2.9'']
       [(''mail'', ''A'')] [] = (Inr res, log') \<and> length res = 3)"
proof -
  let ?E = "test_env test_zones test_records"
  let ?c = "\<lparr>token = ''test-token'', BaseURL = ''http://127.0.0.1''\<rparr>"
  note a = one_result_per_input [where E = ?E and p = test_provider and zone = "''example.com''"
      and records = "[www_input, mail_input ''192.0.2.7'']" and log = "[]",
      THEN conjunct1, rule_format, OF AppendRecords_two]
  from a obtain zoneID c where z:
    "getZoneID ?E test_provider ''example.com'' [] = (Inr zoneID, [] @ [GET_zones])"
    "newClient ?E test_provider = Inr c"
    and st: "\<forall>i<length [www_input, mail_input ''192.0.2.7'']. \<exists>created.
      http_record ?E c
        ([] @ GET_zones # map (\<lambda>r. POST_record zoneID (libdnsToInternal ?E ''example.com'' r))
           (take (Suc i) [www_input, mail_input ''192.0.2.7''])) = Inr created \<and>
      internalToLibdns ?E ''example.com'' created =
        Inr ([a_rr ''www.example.com.'' ''192.0.2.100'' 7200000000000,
              a_rr ''mail.example.com.'' ''192.0.2.7'' 300000000000] ! i)"
    by blast
  from z have zc: "zoneID = 1" "c = ?c"
    by (simp_all add: getZoneID_test)
  from st [rule_format, of 0] zc
  have "\<exists>created. http_record ?E ?c
        [GET_zones, POST_record 1 (a_record 0 ''www'' ''192.0.2.100'' 7200)] = Inr created \<and>
      internalToLibdns ?E ''example.com'' created =
        Inr ([a_rr ''www.example.com.'' ''192.0.2.100'' 7200000000000,
              a_rr ''mail.example.com.'' ''192.0.2.7'' 300000000000] ! 0)"
    by (simp add: toInternal_www)
  moreover note one_result_per_input [where E = ?E
      and p = test_provider and zone = "''example.com''" and log = "[]"
      and records = "[mail_input ''192.0.2.7'', mail_input ''192.0.2.8'', mail_input ''192.0.2.9'']"
      and order = "[(''mail'', ''A'')]",
      THEN conjunct2, rule_format, OF conjI, OF range_order_mail3 SetRecords_three_one]
  ultimately show ?thesis
    using AppendRecords_two SetRecords_three_one range_order_mail3 by simp
qed

section \<open>Records under other keys\<close>

lemma plan_for_key_targets:
  assumes "x \<in> set (plan_for_key zoneID ex ins)"
    and "x = DELETE_record z i \<or> x = PUT_record z i r"
  shows "\<exists>e\<in>set ex. ID e = i"
  using assms by (auto simp: plan_for_key_def)

lemma set_plan_targets:
  assumes "x \<in> set (set_plan E zone zoneID existingRecords records order)"
    and "x = DELETE_record z i \<or> x = PUT_record z i r"
  shows "\<exists>e\<in>set existingRecords. ID e = i \<and> key_of e \<in> set order"
proof -
  from assms(1) obtain key where k: "key \<in> set order"
    and x: "x \<in> set (plan_for_key zoneID (existing_for key existingRecords)
                       (desired_for E zone records key))"
    by (auto simp: set_plan_def)
  from plan_for_key_targets [OF x assms(2)] obtain e
    where "e \<in> set (existing_for key existingRecords)" "ID e = i"
    by blast
  with k show ?thesis
    by (auto simp: existing_for_def key_of_def)
qed

text \<open>
  C5. In every run of \<open>SetRecords\<close> past the listing, successful or not, each update and
  each delete call carries the id of a listed record whose name and type are the key of
  some input record. When the listed ids are distinct, no update and no delete call carries
  the id of a listed record whose key is absent from the input.
\<close>

theorem SetRecords_frame:
  assumes "getZoneID E p zone log = (Inr zoneID, log1)"
    and "newClient E p = Inr c"
    and "http_records E c (log1 @ [GET_records zoneID []]) = Inr existingRecords"
    and "range_order (group_inputs E zone records Map.empty) order"
    and "SetRecords E p zone records order log = (res, log')"
  shows "\<exists>calls. log' = log1 @ GET_records zoneID [] # calls \<and>
    (\<forall>x\<in>set calls. \<forall>z i. x = DELETE_record z i \<or> (\<exists>r. x = PUT_record z i r) \<longrightarrow>
       (\<exists>e\<in>set existingRecords. ID e = i \<and>
          key_of e \<in> key_of ` libdnsToInternal E zone ` set records)) \<and>
    (distinct (map ID existingRecords) \<longrightarrow>
       (\<forall>e\<in>set existingRecords.
          key_of e \<notin> key_of ` libdnsToInternal E zone ` set records \<longrightarrow>
          (\<forall>z. DELETE_record z (ID e) \<notin> set calls \<and>
               (\<forall>r. PUT_record z (ID e) r \<notin> set calls))))"
proof -
  let ?plan = "set_plan E zone zoneID existingRecords records order"
  let ?keys = "key_of ` libdnsToInternal E zone ` set records"
  from assms(4) have s: "set order = ?keys"
    by (simp add: range_order_def dom_group_inputs)
  from assms(5) have "run_plan E c zone ?plan [] (log1 @ [GET_records zoneID []]) = (res, log')"
    by (simp add: SetRecords_run_plan [OF assms(1-3)])
  from run_plan_prefix [OF this] obtain n
    where l: "log' = log1 @ GET_records zoneID [] # take n ?plan"
    by auto
  have t: "\<exists>e\<in>set existingRecords. ID e = i \<and> key_of e \<in> ?keys"
    if "x \<in> set (take n ?plan)" "x = DELETE_record z i \<or> x = PUT_record z i r" for x z i r
  proof -
    from that(1) have "x \<in> set ?plan" by (rule in_set_takeD)
    from set_plan_targets [OF this that(2)] s show ?thesis by simp
  qed
  have u: "DELETE_record z (ID e) \<notin> set (take n ?plan) \<and>
      (\<forall>r. PUT_record z (ID e) r \<notin> set (take n ?plan))"
    if d: "distinct (map ID existingRecords)" and e: "e \<in> set existingRecords"
      and k: "key_of e \<notin> ?keys" for e z
  proof -
    have "False" if "x \<in> set (take n ?plan)"
      "x = DELETE_record z (ID e) \<or> x = PUT_record z (ID e) r" for x r
    proof -
      from t [OF that] obtain e' where e': "e' \<in> set existingRecords" "ID e' = ID e"
        "key_of e' \<in> ?keys"
        by blast
      from d have "inj_on ID (set existingRecords)"
        by (simp add: distinct_map)
      with e e'(1,2) have "e' = e" by (auto dest: inj_onD)
      with e'(3) k show False by simp
    qed
    then show ?thesis by blast
  qed
  show ?thesis
  proof (intro exI [of _ "take n ?plan"] conjI)
    show "log' = log1 @ GET_records zoneID [] # take n ?plan" by (rule l)
    show "\<forall>x\<in>set (take n ?plan). \<forall>z i. x = DELETE_record z i \<or> (\<exists>r. x = PUT_record z i r) \<longrightarrow>
       (\<exists>e\<in>set existingRecords. ID e = i \<and> key_of e \<in> ?keys)"
      using t by blast
    show "distinct (map ID existingRecords) \<longrightarrow>
       (\<forall>e\<in>set existingRecords. key_of e \<notin> ?keys \<longrightarrow>
          (\<forall>z. DELETE_record z (ID e) \<notin> set (take n ?plan) \<and>
               (\<forall>r. PUT_record z (ID e) r \<notin> set (take n ?plan))))"
      using u by blast
  qed
qed

theorem SetRecords_frame_witness:
  "distinct (map ID test_records) \<and>
   a_record 4 ''mail'' ''192.0.2.3'' 3600 \<in> set test_records \<and>
   key_of (a_record 4 ''mail'' ''192.0.2.3'' 3600) \<notin>
     key_of ` libdnsToInternal (test_env test_zones test_records) ''example.com'' ` set [www_input] \<and>
   (\<exists>calls. SetRecords (test_env test_zones test_records) test_provider ''example.com''
        [www_input] [(''www'', ''A'')] [] =
        (Inr [a_rr ''www.example.com.'' ''192.0.2.100'' 7200000000000],
         [GET_zones] @ GET_records 1 [] # calls) \<and>
      (\<forall>z. DELETE_record z 4 \<notin> set calls \<and> (\<forall>r. PUT_record z 4 r \<notin> set calls)))"
proof -
  let ?E = "test_env test_zones test_records"
  have z: "getZoneID ?E test_provider ''example.com'' [] = (Inr 1, [GET_zones])"
    by (rule getZoneID_test)
  have c: "newClient ?E test_provider =
      Inr \<lparr>token = ''test-token'', BaseURL = ''http://127.0.0.1''\<rparr>"
    by simp
  have r: "http_records ?E \<lparr>token = ''test-token'', BaseURL = ''http://127.0.0.1''\<rparr>
      ([GET_zones] @ [GET_records 1 []]) = Inr test_records"
    by simp
  have d: "distinct (map ID test_records)"
    by (simp add: test_records_def)
  have m: "a_record 4 ''mail'' ''192.0.2.3'' 3600 \<in> set test_records"
    by (simp add: test_records_a)
  have k: "key_of (a_record 4 ''mail'' ''192.0.2.3'' 3600) \<notin>
     key_of ` libdnsToInternal ?E ''example.com'' ` set [www_input]"
    by (simp add: toInternal_www)
  from SetRecords_frame [OF z c r range_order_www SetRecords_one_two] obtain calls
    where "[GET_zones, GET_records 1 [],
        PUT_record 1 1 (a_record 0 ''www'' ''192.0.2.100'' 7200), DELETE_record 1 3] =
        [GET_zones] @ GET_records 1 [] # calls"
      and "distinct (map ID test_records) \<longrightarrow>
       (\<forall>e\<in>set test_records.
          key_of e \<notin> key_of ` libdnsToInternal ?E ''example.com'' ` set [www_input] \<longrightarrow>
          (\<forall>z. DELETE_record z (ID e) \<notin> set calls \<and>
               (\<forall>r. PUT_record z (ID e) r \<notin> set calls)))"
    by blast
  with d m k have "SetRecords ?E test_provider ''example.com'' [www_input] [(''www'', ''A'')] [] =
        (Inr [a_rr ''www.example.com.'' ''192.0.2.100'' 7200000000000],
         [GET_zones] @ GET_records 1 [] # calls) \<and>
      (\<forall>z. DELETE_record z 4 \<notin> set calls \<and> (\<forall>r. PUT_record z 4 r \<notin> set calls))"
    using SetRecords_one_two by (metis ID_a)
  with d m k show ?thesis by blast
qed

section \<open>Failure\<close>

lemma set_step_wrapped:
  "set_step E c zone x l = Inl err \<Longrightarrow>
   (\<exists>msg e. err = Wrap msg e) \<or> (\<exists>msg i e. err = WrapID msg i e)"
  by (cases x) (auto split: sum.splits option.splits)

lemma toInternal_bad:
  "libdnsToInternal (test_env zs rs) ''example.com'' bad_input = bad_record 0"
  by (simp add: libdnsToInternal_def Let_def test_env_def bad_input_def bad_record_def
      apex_name_def split_priority_def TrimSuffix_def HasSuffix_def CutSuffix_def)

lemma http_post_bad:
  "http_record (test_env zs rs) c [GET_zones, POST_record 1 (bad_record 0)] = Inr (bad_record 102)"
  by (simp add: http_record_test bad_record_def)

lemma toLibdns_bad:
  "internalToLibdns (test_env zs rs) ''example.com'' (bad_record i) = Inl (External ''parse'')"
  by (simp add: internalToLibdns_def internalToLibdns_rr_def test_env_def bad_record_def)

text \<open>
  C8. When \<open>AppendRecords\<close> fails after the zone is resolved, the calls it has made are the
  creates for the input records up to one of them, whose create failed or whose created
  record the codec rejected; every create before it succeeded and was translated; the error
  is that failure wrapped, and no call follows. When \<open>SetRecords\<close> fails after the listing,
  the calls it has made are the plan up to one of its calls; the step of that call failed,
  every step before it succeeded, the error is the wrapped error of that step, and no call
  follows. Conversely, in both operations the first step that fails ends the run with its
  wrapped error, right after its call. Nothing is issued to take back the calls made before
  the failure.
\<close>

theorem abort_without_rollback:
  "(getZoneID E p zone log = (Inr zoneID, log1) \<and> newClient E p = Inr c \<and>
    AppendRecords E p zone records log = (Inl err, log') \<longrightarrow>
      (\<exists>n<length records.
         log' = log1 @ map (\<lambda>r. POST_record zoneID (libdnsToInternal E zone r))
                         (take (Suc n) records) \<and>
         ((\<exists>e. http_record E c log' = Inl e \<and> err = Wrap ''failed to create record'' e) \<or>
          (\<exists>created e. http_record E c log' = Inr created \<and>
             internalToLibdns E zone created = Inl e \<and>
             err = Wrap ''failed to convert created record'' e)) \<and>
         (\<forall>m<n. \<exists>created l.
            http_record E c
              (log1 @ map (\<lambda>r. POST_record zoneID (libdnsToInternal E zone r))
                        (take (Suc m) records)) = Inr created \<and>
            internalToLibdns E zone created = Inr l))) \<and>
   (getZoneID E p zone log = (Inr zoneID, log1) \<and> newClient E p = Inr c \<and>
    http_records E c (log1 @ [GET_records zoneID []]) = Inr existingRecords \<and>
    SetRecords E p zone records order log = (Inl err, log') \<longrightarrow>
      (\<exists>n<length (set_plan E zone zoneID existingRecords records order).
         log' = log1 @ GET_records zoneID [] #
                  take (Suc n) (set_plan E zone zoneID existingRecords records order) \<and>
         set_step E c zone (set_plan E zone zoneID existingRecords records order ! n) log' =
           Inl err \<and>
         (\<forall>m<n. \<exists>y. set_step E c zone
                       (set_plan E zone zoneID existingRecords records order ! m)
                       (log1 @ GET_records zoneID [] #
                          take (Suc m) (set_plan E zone zoneID existingRecords records order)) =
                     Inr y) \<and>
         ((\<exists>msg e. err = Wrap msg e) \<or> (\<exists>msg i e. err = WrapID msg i e)))) \<and>
   (getZoneID E p zone log = (Inr zoneID, log1) \<and> newClient E p = Inr c \<and>
    k < length records \<and>
    (\<forall>m<k. \<exists>created l.
       http_record E c
         (log1 @ map (\<lambda>r. POST_record zoneID (libdnsToInternal E zone r))
                   (take (Suc m) records)) = Inr created \<and>
       internalToLibdns E zone created = Inr l) \<and>
    ((\<exists>e. http_record E c
            (log1 @ map (\<lambda>r. POST_record zoneID (libdnsToInternal E zone r))
                      (take (Suc k) records)) = Inl e \<and>
          err = Wrap ''failed to create record'' e) \<or>
     (\<exists>created e.
        http_record E c
          (log1 @ map (\<lambda>r. POST_record zoneID (libdnsToInternal E zone r))
                    (take (Suc k) records)) = Inr created \<and>
        internalToLibdns E zone created = Inl e \<and>
        err = Wrap ''failed to convert created record'' e)) \<longrightarrow>
      AppendRecords E p zone records log =
        (Inl err,
         log1 @ map (\<lambda>r. POST_record zoneID (libdnsToInternal E zone r))
                  (take (Suc k) records))) \<and>
   (getZoneID E p zone log = (Inr zoneID, log1) \<and> newClient E p = Inr c \<and>
    http_records E c (log1 @ [GET_records zoneID []]) = Inr existingRecords \<and>
    k < length (set_plan E zone zoneID existingRecords records order) \<and>
    (\<forall>m<k. \<exists>y. set_step E c zone
                  (set_plan E zone zoneID existingRecords records order ! m)
                  (log1 @ GET_records zoneID [] #
                     take (Suc m) (set_plan E zone zoneID existingRecords records order)) =
                Inr y) \<and>
    set_step E c zone (set_plan E zone zoneID existingRecords records order ! k)
      (log1 @ GET_records zoneID [] #
         take (Suc k) (set_plan E zone zoneID existingRecords records order)) = Inl err \<longrightarrow>
      SetRecords E p zone records order log =
        (Inl err,
         log1 @ GET_records zoneID [] #
           take (Suc k) (set_plan E zone zoneID existingRecords records order)))"
proof (intro conjI impI)
  assume a: "getZoneID E p zone log = (Inr zoneID, log1) \<and> newClient E p = Inr c \<and>
    AppendRecords E p zone records log = (Inl err, log')"
  then have "append_loop E c zone zoneID records [] log1 = (Inl err, log')"
    using AppendRecords_loop [of E p zone log zoneID log1 c records] by simp
  from append_loop_failure_first [OF this]
  show "\<exists>n<length records.
         log' = log1 @ map (\<lambda>r. POST_record zoneID (libdnsToInternal E zone r))
                         (take (Suc n) records) \<and>
         ((\<exists>e. http_record E c log' = Inl e \<and> err = Wrap ''failed to create record'' e) \<or>
          (\<exists>created e. http_record E c log' = Inr created \<and>
             internalToLibdns E zone created = Inl e \<and>
             err = Wrap ''failed to convert created record'' e)) \<and>
         (\<forall>m<n. \<exists>created l.
            http_record E c
              (log1 @ map (\<lambda>r. POST_record zoneID (libdnsToInternal E zone r))
                        (take (Suc m) records)) = Inr created \<and>
            internalToLibdns E zone created = Inr l)" .
next
  let ?plan = "set_plan E zone zoneID existingRecords records order"
  assume a: "getZoneID E p zone log = (Inr zoneID, log1) \<and> newClient E p = Inr c \<and>
    http_records E c (log1 @ [GET_records zoneID []]) = Inr existingRecords \<and>
    SetRecords E p zone records order log = (Inl err, log')"
  then have "run_plan E c zone ?plan [] (log1 @ [GET_records zoneID []]) = (Inl err, log')"
    using SetRecords_run_plan [of E p zone log zoneID log1 c existingRecords records order]
    by simp
  from run_plan_failure [OF this] obtain n where n: "n < length ?plan"
    "log' = (log1 @ [GET_records zoneID []]) @ take (Suc n) ?plan"
    "set_step E c zone (?plan ! n) log' = Inl err"
    "\<forall>m<n. \<exists>y. set_step E c zone (?plan ! m)
        ((log1 @ [GET_records zoneID []]) @ take (Suc m) ?plan) = Inr y"
    by blast
  from set_step_wrapped [OF n(3)]
  have w: "(\<exists>msg e. err = Wrap msg e) \<or> (\<exists>msg i e. err = WrapID msg i e)" .
  from n w show "\<exists>n<length ?plan.
         log' = log1 @ GET_records zoneID [] # take (Suc n) ?plan \<and>
         set_step E c zone (?plan ! n) log' = Inl err \<and>
         (\<forall>m<n. \<exists>y. set_step E c zone (?plan ! m)
                       (log1 @ GET_records zoneID [] # take (Suc m) ?plan) = Inr y) \<and>
         ((\<exists>msg e. err = Wrap msg e) \<or> (\<exists>msg i e. err = WrapID msg i e))"
    by (intro exI [of _ n]) simp
next
  assume a: "getZoneID E p zone log = (Inr zoneID, log1) \<and> newClient E p = Inr c \<and>
    k < length records \<and>
    (\<forall>m<k. \<exists>created l.
       http_record E c
         (log1 @ map (\<lambda>r. POST_record zoneID (libdnsToInternal E zone r))
                   (take (Suc m) records)) = Inr created \<and>
       internalToLibdns E zone created = Inr l) \<and>
    ((\<exists>e. http_record E c
            (log1 @ map (\<lambda>r. POST_record zoneID (libdnsToInternal E zone r))
                      (take (Suc k) records)) = Inl e \<and>
          err = Wrap ''failed to create record'' e) \<or>
     (\<exists>created e.
        http_record E c
          (log1 @ map (\<lambda>r. POST_record zoneID (libdnsToInternal E zone r))
                    (take (Suc k) records)) = Inr created \<and>
        internalToLibdns E zone created = Inl e \<and>
        err = Wrap ''failed to convert created record'' e))"
  then have r: "getZoneID E p zone log = (Inr zoneID, log1)" "newClient E p = Inr c"
    and k: "k < length records"
    and ok: "\<forall>m<k. \<exists>created l.
       http_record E c
         (log1 @ map (\<lambda>r. POST_record zoneID (libdnsToInternal E zone r))
                   (take (Suc m) records)) = Inr created \<and>
       internalToLibdns E zone created = Inr l"
    and f: "(\<exists>e. http_record E c
            (log1 @ map (\<lambda>r. POST_record zoneID (libdnsToInternal E zone r))
                      (take (Suc k) records)) = Inl e \<and>
          err = Wrap ''failed to create record'' e) \<or>
     (\<exists>created e.
        http_record E c
          (log1 @ map (\<lambda>r. POST_record zoneID (libdnsToInternal E zone r))
                    (take (Suc k) records)) = Inr created \<and>
        internalToLibdns E zone created = Inl e \<and>
        err = Wrap ''failed to convert created record'' e)"
    by blast+
  from append_loop_first_failure [OF k ok f, of "[]"] r
  show "AppendRecords E p zone records log =
        (Inl err,
         log1 @ map (\<lambda>r. POST_record zoneID (libdnsToInternal E zone r))
                  (take (Suc k) records))"
    by (simp add: AppendRecords_loop)
next
  let ?plan = "set_plan E zone zoneID existingRecords records order"
  assume a: "getZoneID E p zone log = (Inr zoneID, log1) \<and> newClient E p = Inr c \<and>
    http_records E c (log1 @ [GET_records zoneID []]) = Inr existingRecords \<and>
    k < length ?plan \<and>
    (\<forall>m<k. \<exists>y. set_step E c zone (?plan ! m)
                  (log1 @ GET_records zoneID [] # take (Suc m) ?plan) = Inr y) \<and>
    set_step E c zone (?plan ! k) (log1 @ GET_records zoneID [] # take (Suc k) ?plan) = Inl err"
  then have r: "getZoneID E p zone log = (Inr zoneID, log1)" "newClient E p = Inr c"
      "http_records E c (log1 @ [GET_records zoneID []]) = Inr existingRecords"
    and k: "k < length ?plan"
    and ok: "\<forall>m<k. \<exists>y. set_step E c zone (?plan ! m)
                  ((log1 @ [GET_records zoneID []]) @ take (Suc m) ?plan) = Inr y"
    and f: "set_step E c zone (?plan ! k)
              ((log1 @ [GET_records zoneID []]) @ take (Suc k) ?plan) = Inl err"
    by simp_all
  from run_plan_first_failure [OF k ok f, of "[]"]
  show "SetRecords E p zone records order log =
        (Inl err, log1 @ GET_records zoneID [] # take (Suc k) ?plan)"
    by (simp add: SetRecords_run_plan [OF r])
qed

theorem abort_without_rollback_witness:
  "AppendRecords (test_env test_zones test_records) test_provider ''example.com''
     [www_input, www_reject, www_input] [] =
   (Inl (Wrap ''failed to create record'' (External ''400'')),
    [GET_zones, POST_record 1 (a_record 0 ''www'' ''192.0.2.100'' 7200),
     POST_record 1 (a_record 0 ''www'' ''reject'' 7200)]) \<and>
   (\<exists>n<3. [GET_zones, POST_record 1 (a_record 0 ''www'' ''192.0.2.100'' 7200),
            POST_record 1 (a_record 0 ''www'' ''reject'' 7200)] =
      [GET_zones] @
      map (\<lambda>r. POST_record 1 (libdnsToInternal (test_env test_zones test_records)
                                  ''example.com'' r))
        (take (Suc n) [www_input, www_reject, www_input])) \<and>
   SetRecords (test_env test_zones test_records) test_provider ''example.com''
     [www_input, www_reject, www_input] [(''www'', ''A'')] [] =
   (Inl (WrapID ''failed to update record'' 3 (External ''400'')),
    [GET_zones, GET_records 1 [],
     PUT_record 1 1 (a_record 0 ''www'' ''192.0.2.100'' 7200),
     PUT_record 1 3 (a_record 0 ''www'' ''reject'' 7200)]) \<and>
   (\<exists>n<3. [GET_zones, GET_records 1 [],
            PUT_record 1 1 (a_record 0 ''www'' ''192.0.2.100'' 7200),
            PUT_record 1 3 (a_record 0 ''www'' ''reject'' 7200)] =
      [GET_zones] @ GET_records 1 [] #
        take (Suc n) (set_plan (test_env test_zones test_records) ''example.com'' 1
                        test_records [www_input, www_reject, www_input] [(''www'', ''A'')])) \<and>
   AppendRecords (test_env test_zones test_records) test_provider ''example.com''
     [bad_input, www_input] [] =
   (Inl (Wrap ''failed to convert created record'' (External ''parse'')),
    [GET_zones, POST_record 1 (bad_record 0)])"
proof -
  let ?E = "test_env test_zones test_records"
  let ?c = "\<lparr>token = ''test-token'', BaseURL = ''http://127.0.0.1''\<rparr>"
  let ?in = "[www_input, www_reject, www_input]"
  have z: "getZoneID ?E test_provider ''example.com'' [] = (Inr 1, [GET_zones])"
    by (rule getZoneID_test)
  have c: "newClient ?E test_provider = Inr ?c"
    by simp
  have r: "http_records ?E ?c ([GET_zones] @ [GET_records 1 []]) = Inr test_records"
    by simp
  have l3: "length ?in = 3"
    by simp
  have l: "length (set_plan ?E ''example.com'' 1 test_records ?in [(''www'', ''A'')]) = 3"
    by (simp add: set_plan_def desired_for_def toInternal_www toInternal_reject existing_www
        plan_three_two)
  from abort_without_rollback [where E = ?E and p = test_provider and zone = "''example.com''"
      and log = "[]" and zoneID = 1 and ?log1.0 = "[GET_zones]" and c = ?c and records = ?in,
      THEN conjunct1, rule_format, OF conjI [OF z conjI [OF c AppendRecords_rejected]]]
  have a: "\<exists>n<3. [GET_zones, POST_record 1 (a_record 0 ''www'' ''192.0.2.100'' 7200),
            POST_record 1 (a_record 0 ''www'' ''reject'' 7200)] =
      [GET_zones] @ map (\<lambda>r. POST_record 1 (libdnsToInternal ?E ''example.com'' r))
        (take (Suc n) ?in)"
    unfolding l3 by blast
  from abort_without_rollback [where E = ?E and p = test_provider and zone = "''example.com''"
      and log = "[]" and zoneID = 1 and ?log1.0 = "[GET_zones]" and c = ?c and records = ?in
      and existingRecords = test_records and order = "[(''www'', ''A'')]",
      THEN conjunct2, THEN conjunct1, rule_format,
      OF conjI [OF z conjI [OF c conjI [OF r SetRecords_rejected]]]]
  have s: "\<exists>n<3. [GET_zones, GET_records 1 [],
            PUT_record 1 1 (a_record 0 ''www'' ''192.0.2.100'' 7200),
            PUT_record 1 3 (a_record 0 ''www'' ''reject'' 7200)] =
      [GET_zones] @ GET_records 1 [] #
        take (Suc n) (set_plan ?E ''example.com'' 1 test_records ?in [(''www'', ''A'')])"
    unfolding l by blast
  have k: "0 < length [bad_input, www_input]"
    by simp
  have ok: "\<forall>m<0::nat. \<exists>created l.
       http_record ?E ?c
         ([GET_zones] @ map (\<lambda>r. POST_record 1 (libdnsToInternal ?E ''example.com'' r))
                   (take (Suc m) [bad_input, www_input])) = Inr created \<and>
       internalToLibdns ?E ''example.com'' created = Inr l"
    by simp
  have f: "(\<exists>e. http_record ?E ?c
            ([GET_zones] @ map (\<lambda>r. POST_record 1 (libdnsToInternal ?E ''example.com'' r))
                      (take (Suc 0) [bad_input, www_input])) = Inl e \<and>
          Wrap ''failed to convert created record'' (External ''parse'') =
            Wrap ''failed to create record'' e) \<or>
     (\<exists>created e.
        http_record ?E ?c
          ([GET_zones] @ map (\<lambda>r. POST_record 1 (libdnsToInternal ?E ''example.com'' r))
                    (take (Suc 0) [bad_input, www_input])) = Inr created \<and>
        internalToLibdns ?E ''example.com'' created = Inl e \<and>
        Wrap ''failed to convert created record'' (External ''parse'') =
          Wrap ''failed to convert created record'' e)"
    by (simp add: toInternal_bad http_post_bad toLibdns_bad)
  from abort_without_rollback [where E = ?E and p = test_provider and zone = "''example.com''"
      and log = "[]" and zoneID = 1 and ?log1.0 = "[GET_zones]" and c = ?c
      and records = "[bad_input, www_input]" and k = 0
      and err = "Wrap ''failed to convert created record'' (External ''parse'')",
      THEN conjunct2, THEN conjunct2, THEN conjunct1, rule_format,
      OF conjI [OF z conjI [OF c conjI [OF k conjI [OF ok f]]]]]
  have t: "AppendRecords ?E test_provider ''example.com'' [bad_input, www_input] [] =
      (Inl (Wrap ''failed to convert created record'' (External ''parse'')),
       [GET_zones, POST_record 1 (bad_record 0)])"
    by (simp add: toInternal_bad)
  from a s t show ?thesis
    using AppendRecords_rejected SetRecords_rejected by blast
qed

section \<open>DeleteRecords\<close>




lemma a_record_name_type [simp]:
  "Name (a_record i n d t) = n" "Type (a_record i n d t) = ''A''"
  by (simp_all add: a_record_def)








end
